theory Spec2Isabelle
  imports Main Complex_Main
begin

section \<open>JavaScript strings\<close>

text \<open>
  A JavaScript string is a sequence of code units. It is modelled as a \<^typ>\<open>string\<close>, each
  character standing for one code unit below 256 and read through its code
  (\<^term>\<open>of_char c :: nat\<close>). The regular expressions of the sources have no \<open>u\<close> flag, so
  they work on single code units, as the functions below do on single characters.
\<close>

definition is_upper :: "char \<Rightarrow> bool" where
  "is_upper c = (65 \<le> (of_char c :: nat) \<and> (of_char c :: nat) \<le> 90)"

definition is_lower :: "char \<Rightarrow> bool" where
  "is_lower c = (97 \<le> (of_char c :: nat) \<and> (of_char c :: nat) \<le> 122)"

definition is_digit :: "char \<Rightarrow> bool" where
  "is_digit c = (48 \<le> (of_char c :: nat) \<and> (of_char c :: nat) \<le> 57)"

text \<open>The character classes \<open>[A-Za-z_]\<close> and \<open>[A-Za-z0-9_]\<close>.\<close>

definition is_ident_start :: "char \<Rightarrow> bool" where
  "is_ident_start c = (is_upper c \<or> is_lower c \<or> c = CHR ''_'')"

definition is_ident_char :: "char \<Rightarrow> bool" where
  "is_ident_char c = (is_upper c \<or> is_lower c \<or> is_digit c \<or> c = CHR ''_'')"

text \<open>
  White space as \<open>String.prototype.trim\<close> and the class \<open>\s\<close> read it, below code 256:
  tab, line feed, vertical tab, form feed, carriage return, space and no-break space.
\<close>

definition is_ws :: "char \<Rightarrow> bool" where
  "is_ws c = ((9 \<le> (of_char c :: nat) \<and> (of_char c :: nat) \<le> 13)
     \<or> (of_char c :: nat) = 32 \<or> (of_char c :: nat) = 160)"

definition trim :: "string \<Rightarrow> string" where
  "trim s = rev (dropWhile is_ws (rev (dropWhile is_ws s)))"

text \<open>
  \<open>toLowerCase\<close> on one code unit below 256: the letters A to Z and the Latin-1 capitals
  (192 to 222, the multiplication sign 215 apart) move up by 32.
\<close>

definition lower_char :: "char \<Rightarrow> char" where
  "lower_char c =
     (let n = (of_char c :: nat) in
      if (65 \<le> n \<and> n \<le> 90) \<or> (192 \<le> n \<and> n \<le> 222 \<and> n \<noteq> 215)
      then char_of (n + 32) else c)"

definition toLowerCase :: "string \<Rightarrow> string" where
  "toLowerCase s = map lower_char s"

text \<open>
  Case folding of a regular expression with the \<open>i\<close> flag and no \<open>u\<close> flag, against a
  pattern of ASCII letters: only A to Z fold onto a to z.
\<close>

definition fold_char :: "char \<Rightarrow> char" where
  "fold_char c = (if is_upper c then char_of ((of_char c :: nat) + 32) else c)"

definition ends_with :: "string \<Rightarrow> string \<Rightarrow> bool" where
  "ends_with s suf = (length suf \<le> length s \<and> drop (length s - length suf) s = suf)"

text \<open>\<open>/\.ext$/i.test(fileName)\<close>: the name ends with \<open>.ext\<close>, letters in either case.\<close>

definition test_extension :: "string \<Rightarrow> string \<Rightarrow> bool" where
  "test_extension ext fileName = ends_with (map fold_char fileName) (CHR ''.'' # ext)"

text \<open>\<open>s.includes(sub)\<close>: \<open>sub\<close> occurs in \<open>s\<close> at some position.\<close>

fun js_includes :: "string \<Rightarrow> string \<Rightarrow> bool" where
  "js_includes [] sub = (sub = [])"
| "js_includes (c # cs) sub = (take (length sub) (c # cs) = sub \<or> js_includes cs sub)"

text \<open>
  \<open>s.split(/[\\/]/)\<close>: the pieces between the separators, at least one piece (the whole
  string when no separator occurs, the empty string for the empty string).
\<close>

definition is_sep :: "char \<Rightarrow> bool" where
  "is_sep c = (c = CHR 0x5C \<or> c = CHR ''/'')"

fun split_seps :: "string \<Rightarrow> string list" where
  "split_seps [] = [[]]"
| "split_seps (c # cs) =
     (if is_sep c then [] # split_seps cs
      else (case split_seps cs of [] \<Rightarrow> [[c]] | w # ws \<Rightarrow> (c # w) # ws))"

text \<open>\<open>xs.pop()\<close> as a value: the last element, \<open>undefined\<close> (None) on an empty array.\<close>

definition pop :: "'a list \<Rightarrow> 'a option" where
  "pop xs = (case rev xs of [] \<Rightarrow> None | x # _ \<Rightarrow> Some x)"

section \<open>The identifier sanitizer (webview.ts)\<close>

text \<open>
  \<open>baseName.replace(/\.[^.]+$/, '')\<close>: the leftmost dot that is followed, up to the end of
  the string, by at least one character and by no other dot; the match runs to the end, so
  the replacement leaves what stands before that dot. Without such a dot nothing changes.
\<close>

fun strip_extension :: "string \<Rightarrow> string" where
  "strip_extension [] = []"
| "strip_extension (c # cs) =
     (if c = CHR ''.'' \<and> cs \<noteq> [] \<and> list_all (\<lambda>d. d \<noteq> CHR ''.'') cs then []
      else c # strip_extension cs)"

text \<open>\<open>withoutExtension.replace(/[^A-Za-z0-9_]/g, '_')\<close>.\<close>

definition sanitize :: "string \<Rightarrow> string" where
  "sanitize s = map (\<lambda>c. if is_ident_char c then c else CHR ''_'') s"

text \<open>\<open>fileName.split(/[\\/]/).pop() ?? fileName\<close>.\<close>

definition baseName :: "string \<Rightarrow> string" where
  "baseName fileName = (case pop (split_seps fileName) of None \<Rightarrow> fileName | Some b \<Rightarrow> b)"

definition generateViewName :: "string \<Rightarrow> string" where
  "generateViewName fileName =
     (let withoutExtension = strip_extension (baseName fileName);
          sanitized = sanitize withoutExtension;
          sanitized = (if sanitized = [] then ''data_view'' else sanitized);
          sanitized = (if (case sanitized of [] \<Rightarrow> False | c # _ \<Rightarrow> is_digit c)
                       then ''v_'' @ sanitized else sanitized)
      in sanitized)"

text \<open>The pattern \<open>^[A-Za-z_][A-Za-z0-9_]*$\<close> of \<open>formatIdentifierForSql\<close>.\<close>

definition simplePattern :: "string \<Rightarrow> bool" where
  "simplePattern s =
     (case s of [] \<Rightarrow> False | c # cs \<Rightarrow> is_ident_start c \<and> list_all is_ident_char cs)"

definition formatIdentifierForSql :: "string \<Rightarrow> string" where
  "formatIdentifierForSql identifier =
     (if simplePattern identifier then identifier
      else [CHR 0x22] @ concat (map (\<lambda>c. if c = CHR 0x22 then [c, c] else [c]) identifier)
           @ [CHR 0x22])"

section \<open>The loader registry\<close>

text \<open>
  The three loaders of \<open>DATA_LOADERS\<close>. Only their identity and their \<open>canLoad\<close> predicate
  take part in the selection; \<open>load\<close> talks to the engine and is not called by it.
\<close>

datatype DataLoader = arrowLoader | parquetLoader | csvLoader

fun canLoad :: "DataLoader \<Rightarrow> string \<Rightarrow> bool" where
  "canLoad arrowLoader fileName =
     (test_extension ''arrow'' fileName \<or> test_extension ''ipc'' fileName)"
| "canLoad parquetLoader fileName =
     (test_extension ''parquet'' fileName \<or> test_extension ''parq'' fileName)"
| "canLoad csvLoader fileName = test_extension ''csv'' fileName"

definition DATA_LOADERS :: "DataLoader list" where
  "DATA_LOADERS = [arrowLoader, parquetLoader, csvLoader]"

definition selectLoader :: "string \<Rightarrow> DataLoader" where
  "selectLoader fileName =
     (case List.find (\<lambda>loader. canLoad loader fileName) DATA_LOADERS of
        Some loader \<Rightarrow> loader
      | None \<Rightarrow> csvLoader)"

section \<open>Values of a result cell\<close>

text \<open>
  A JavaScript number is a finite value, held as a real, or one of \<open>NaN\<close>, \<open>Infinity\<close> and
  \<open>-Infinity\<close>. A cell value is what the engine's columnar result hands out: \<open>null\<close>,
  \<open>undefined\<close>, a boolean, a number, a bigint, a string, a \<open>Date\<close> object (its time value,
  None when the date is invalid) or any other object, known by its reference only.
\<close>

datatype jsnumber = Finite real | NaN | PosInfinity | NegInfinity

datatype jsvalue =
    JNull
  | JUndefined
  | JBoolean bool
  | JNumber jsnumber
  | JBigInt int
  | JString string
  | JDate "int option"
  | JObject nat

text \<open>A thrown \<open>Error\<close> object, by its message.\<close>

datatype js_error = Error string

fun message :: "js_error \<Rightarrow> string" where
  "message (Error m) = m"

text \<open>
  What the JavaScript runtime provides and the sources only call: the renderings of
  numbers, bigints, dates and objects, and the locale's string comparison.
  \<open>jsonStringify\<close> is None where \<open>JSON.stringify\<close> throws.
\<close>

record host =
  numberToString :: "real \<Rightarrow> string"
  bigintToString :: "int \<Rightarrow> string"
  toISOString :: "int \<Rightarrow> string"
  jsonStringify :: "nat \<Rightarrow> string option"
  objectToString :: "nat \<Rightarrow> string"
  localeCompare :: "string \<Rightarrow> string \<Rightarrow> int"

text \<open>
  \<open>formatCell\<close>, the branches in the order of the source. \<open>toISOString\<close> throws a
  \<open>RangeError\<close> on an invalid date, which \<open>formatCell\<close> does not catch.
\<close>

fun formatCell :: "host \<Rightarrow> jsvalue \<Rightarrow> js_error + string" where
  "formatCell h JNull = Inr []"
| "formatCell h JUndefined = Inr []"
| "formatCell h (JDate None) = Inl (Error ''Invalid time value'')"
| "formatCell h (JDate (Some t)) = Inr (toISOString h t)"
| "formatCell h (JNumber (Finite x)) = Inr (numberToString h x)"
| "formatCell h (JNumber NaN) = Inr []"
| "formatCell h (JNumber PosInfinity) = Inr []"
| "formatCell h (JNumber NegInfinity) = Inr []"
| "formatCell h (JObject r) =
     Inr (case jsonStringify h r of Some s \<Rightarrow> s | None \<Rightarrow> objectToString h r)"
| "formatCell h (JBoolean b) = Inr (if b then ''true'' else ''false'')"
| "formatCell h (JBigInt i) = Inr (bigintToString h i)"
| "formatCell h (JString s) = Inr s"

text \<open>
  \<open>a === b\<close>. \<open>NaN\<close> equals nothing; an object equals itself only. Every cell holds a
  \<open>Date\<close> object of its own, so two dates of different cells are never the same object.
\<close>

fun strict_equals :: "jsvalue \<Rightarrow> jsvalue \<Rightarrow> bool" where
  "strict_equals (JNumber NaN) _ = False"
| "strict_equals _ (JNumber NaN) = False"
| "strict_equals (JDate _) _ = False"
| "strict_equals _ (JDate _) = False"
| "strict_equals a b = (a = b)"

text \<open>
  \<open>compareValues\<close>. The display texts are None where the source reads \<open>undefined\<close> (a
  column index past the end of the row). The difference of two time values is \<open>NaN\<close> when
  a date is invalid; \<open>Array.prototype.sort\<close> reads a \<open>NaN\<close> from its comparator as 0,
  which is what stands here.
\<close>

definition compareValues ::
  "host \<Rightarrow> jsvalue \<Rightarrow> jsvalue \<Rightarrow> string option \<Rightarrow> string option \<Rightarrow> int" where
  "compareValues h a b aDisplay bDisplay =
     (if strict_equals a b then 0
      else (case (a, b) of
          (JNumber (Finite x), JNumber (Finite y)) \<Rightarrow> (if x < y then - 1 else 1)
        | (JDate ta, JDate tb) \<Rightarrow>
            (case (ta, tb) of (Some x, Some y) \<Rightarrow> x - y | _ \<Rightarrow> 0)
        | _ \<Rightarrow>
            (let textA = toLowerCase (case aDisplay of None \<Rightarrow> [] | Some t \<Rightarrow> t);
                 textB = toLowerCase (case bDisplay of None \<Rightarrow> [] | Some t \<Rightarrow> t)
             in localeCompare h textA textB)))"

section \<open>Arrays in a store\<close>

text \<open>
  \<open>Array.prototype.sort\<close> sorts in place, so the arrays of rows live in a store and are
  known by reference: \<open>filter\<close> and the spread \<open>[...xs]\<close> allocate a new array, \<open>sort\<close>
  overwrites the one it is called on. The rows themselves are never written to by any
  function of the grid and stand in the arrays as values.
\<close>

type_synonym ref = nat

type_synonym 'a store = "'a list list"

definition alloc :: "'a list \<Rightarrow> 'a store \<Rightarrow> ref \<times> 'a store" where
  "alloc xs st = (length st, st @ [xs])"

definition array_filter :: "('a \<Rightarrow> bool) \<Rightarrow> ref \<Rightarrow> 'a store \<Rightarrow> ref \<times> 'a store" where
  "array_filter p r st = alloc (filter p (st ! r)) st"

definition array_spread :: "ref \<Rightarrow> 'a store \<Rightarrow> ref \<times> 'a store" where
  "array_spread r st = alloc (st ! r) st"

text \<open>
  The sort is stable, as ECMAScript requires: an insertion sort that puts an element
  before the first one it does not compare greater than.
\<close>

fun insert_by :: "('a \<Rightarrow> 'a \<Rightarrow> int) \<Rightarrow> 'a \<Rightarrow> 'a list \<Rightarrow> 'a list" where
  "insert_by cmp x [] = [x]"
| "insert_by cmp x (y # ys) =
     (if cmp x y \<le> 0 then x # y # ys else y # insert_by cmp x ys)"

definition sort_by :: "('a \<Rightarrow> 'a \<Rightarrow> int) \<Rightarrow> 'a list \<Rightarrow> 'a list" where
  "sort_by cmp xs = foldr (insert_by cmp) xs []"

definition array_sort :: "('a \<Rightarrow> 'a \<Rightarrow> int) \<Rightarrow> ref \<Rightarrow> 'a store \<Rightarrow> ref \<times> 'a store" where
  "array_sort cmp r st = (r, st[r := sort_by cmp (st ! r)])"

text \<open>\<open>xs[i]\<close> as a value: \<open>undefined\<close> (None) past the end.\<close>

definition at_index :: "'a list \<Rightarrow> nat \<Rightarrow> 'a option" where
  "at_index xs i = (if i < length xs then Some (xs ! i) else None)"

text \<open>
  \<open>xs[i] = v\<close>: past the end JavaScript extends the array and leaves holes between. The
  holes are filled with the empty string here: \<open>map\<close> and \<open>every\<close> skip a hole, and the
  grid reads an empty filter as no filter, so both behave alike.
\<close>

definition assign_index :: "string list \<Rightarrow> nat \<Rightarrow> string \<Rightarrow> string list" where
  "assign_index xs i v =
     (if i < length xs then xs[i := v] else xs @ replicate (i - length xs) [] @ [v])"

section \<open>The session state\<close>

text \<open>
  An Arrow table as the sources read it: the field names of its schema, and for every row
  index below \<open>numRows\<close> what \<open>table.get(i)\<close> returns, None for \<open>null\<close> and else the row,
  read by field name (\<open>row[field.name]\<close>, \<open>undefined\<close> for a name the row does not have).
\<close>

record Table =
  schemaFields :: "string list"
  tableRows :: "(string \<times> jsvalue) list option list"

definition numRows :: "Table \<Rightarrow> nat" where
  "numRows t = length (tableRows t)"

definition row_get :: "(string \<times> jsvalue) list \<Rightarrow> string \<Rightarrow> jsvalue" where
  "row_get row name = (case map_of row name of None \<Rightarrow> JUndefined | Some v \<Rightarrow> v)"

datatype SortDirection = asc | desc

record TableRow =
  raw :: "jsvalue list"
  display :: "string list"

record TableData =
  columns :: "string list"
  rows :: ref

record SortState =
  columnIndex :: int
  direction :: "SortDirection option"

record QueryHistoryEntry =
  entry_id :: nat
  sql :: string
  timestamp :: nat
  durationMs :: nat
  rowCount :: nat
  error :: "string option"

datatype ExportFormat = csv | parquet | arrow

text \<open>The \<open>export-data\<close> message handed to the host by \<open>vscode.postMessage\<close>.\<close>

record ExportMessage =
  fileName :: string
  format :: ExportFormat
  buffer :: "nat list"

text \<open>What the page shows: the results container, the table body and the row count.\<close>

datatype Container = Untouched | EmptyState | TableSkeleton "string list"

datatype TableBody = EmptyRow nat | BodyRows "string list list"

datatype RowCountText = NoRowsToDisplay | AllRows nat | SomeRows nat nat

text \<open>A call that reaches the engine, in the order the calls are made.\<close>

datatype EngineCall = Query string | CopyFileToBuffer string | DropFile string

text \<open>
  The engine is outside the sources. Its answer to a call may depend on every call made
  before; an answer \<open>Inl\<close> is a rejected promise. \<open>elapsed\<close> is the time the answer takes,
  in milliseconds, and \<open>tableToIPC\<close> the Arrow library's serializer.
\<close>

record engine =
  query :: "EngineCall list \<Rightarrow> string \<Rightarrow> js_error + Table option"
  copyFileToBuffer :: "EngineCall list \<Rightarrow> string \<Rightarrow> js_error + nat list"
  dropFile :: "EngineCall list \<Rightarrow> string \<Rightarrow> js_error option"
  elapsed :: "EngineCall list \<Rightarrow> nat"
  tableToIPC :: "Table \<Rightarrow> nat list"

text \<open>
  The module's variables and the page elements it writes to. \<open>db\<close> and \<open>connection\<close> say
  whether the variable is set. An element that \<open>getElementById\<close> may not find is None
  (\<open>resultsContainer\<close>, \<open>status\<close>, \<open>exportStatus\<close>, \<open>rowCountLabel\<close>). \<open>clock\<close> is what
  \<open>Date.now()\<close> and \<open>performance.now()\<close> read, \<open>engineLog\<close> the calls made to the engine
  and \<open>posted\<close> the export messages sent to the host. The chart, the schema list and the
  rendering of the history list write to the page only and are left out.
\<close>

record session =
  db :: bool
  connection :: bool
  arrays :: "TableRow store"
  currentTableData :: "TableData option"
  columnFilters :: "string list"
  globalFilter :: string
  sortState :: SortState
  tableBodyElement :: "TableBody option"
  queryHistory :: "QueryHistoryEntry list"
  nextHistoryId :: nat
  lastArrowResult :: "Table option"
  sqlInput :: string
  runButtonDisabled :: bool
  resultsContainer :: "Container option"
  status :: "string option"
  exportStatus :: "string option"
  rowCountLabel :: "RowCountText option"
  clock :: nat
  engineLog :: "EngineCall list"
  posted :: "ExportMessage list"

definition neutralSort :: SortState where
  "neutralSort = \<lparr>columnIndex = - 1, direction = None\<rparr>"

definition updateStatus :: "string \<Rightarrow> session \<Rightarrow> session" where
  "updateStatus msg s = (case status s of None \<Rightarrow> s | Some _ \<Rightarrow> s\<lparr>status := Some msg\<rparr>)"

definition updateExportStatus :: "string \<Rightarrow> session \<Rightarrow> session" where
  "updateExportStatus msg s =
     (case exportStatus s of None \<Rightarrow> s | Some _ \<Rightarrow> s\<lparr>exportStatus := Some msg\<rparr>)"

definition updateRowCount :: "nat \<Rightarrow> nat \<Rightarrow> session \<Rightarrow> session" where
  "updateRowCount visible totalRows s =
     (case rowCountLabel s of
        None \<Rightarrow> s
      | Some _ \<Rightarrow>
          s\<lparr>rowCountLabel :=
              Some (if totalRows = 0 then NoRowsToDisplay
                    else if visible = totalRows then AllRows visible
                    else SomeRows visible totalRows)\<rparr>)"

section \<open>The result grid\<close>

text \<open>The callback of \<open>currentTableData.rows.filter\<close> in \<open>applyTableState\<close>.\<close>

definition rowPasses :: "string \<Rightarrow> string list \<Rightarrow> TableRow \<Rightarrow> bool" where
  "rowPasses normalizedGlobal normalizedFilters row =
     (if normalizedGlobal \<noteq> [] \<and>
         \<not> list_ex (\<lambda>cell. js_includes (toLowerCase cell) normalizedGlobal) (display row)
      then False
      else list_all
        (\<lambda>(flt, idx).
           if flt = [] then True
           else js_includes
             (toLowerCase (case at_index (display row) idx of None \<Rightarrow> [] | Some t \<Rightarrow> t)) flt)
        (zip normalizedFilters [0..<length normalizedFilters]))"

text \<open>The comparator handed to \<open>sort\<close> in \<open>applyTableState\<close>.\<close>

definition rowComparator :: "host \<Rightarrow> nat \<Rightarrow> int \<Rightarrow> TableRow \<Rightarrow> TableRow \<Rightarrow> int" where
  "rowComparator h sortIndex directionMultiplier a b =
     compareValues h
       (case at_index (raw a) sortIndex of None \<Rightarrow> JUndefined | Some v \<Rightarrow> v)
       (case at_index (raw b) sortIndex of None \<Rightarrow> JUndefined | Some v \<Rightarrow> v)
       (at_index (display a) sortIndex)
       (at_index (display b) sortIndex)
     * directionMultiplier"

text \<open>
  The local \<open>visibleRows\<close> of \<open>applyTableState\<close>, from the filters to the sorted copy: the
  reference of the array that is rendered, and the store after its allocation.
\<close>

definition visibleRows :: "host \<Rightarrow> session \<Rightarrow> TableData \<Rightarrow> ref \<times> TableRow store" where
  "visibleRows h s td =
     (let normalizedGlobal = toLowerCase (trim (globalFilter s));
          normalizedFilters = map (\<lambda>v. toLowerCase (trim v)) (columnFilters s);
          (filtered, st1) =
             array_filter (rowPasses normalizedGlobal normalizedFilters) (rows td) (arrays s)
      in if direction (sortState s) \<noteq> None \<and> columnIndex (sortState s) \<ge> 0
         then
           (let directionMultiplier = (if direction (sortState s) = Some asc then 1 else - 1);
                sortIndex = nat (columnIndex (sortState s));
                (copy, st2) = array_spread filtered st1
            in array_sort (rowComparator h sortIndex directionMultiplier) copy st2)
         else array_spread filtered st1)"

definition applyTableState :: "host \<Rightarrow> session \<Rightarrow> session" where
  "applyTableState h s =
     (case (currentTableData s, tableBodyElement s) of
        (Some td, Some tbody) \<Rightarrow>
          (let (visible, st) = visibleRows h s td;
               shown = st ! visible;
               body = (if length shown = 0
                       then EmptyRow (if length (columns td) = 0 then 1 else length (columns td))
                       else BodyRows (map display shown))
           in updateRowCount (length shown) (length (st ! rows td))
                (s\<lparr>arrays := st, tableBodyElement := Some body\<rparr>))
      | _ \<Rightarrow> s)"

text \<open>The rows on display, for the statements below: the content of the rendered array.\<close>

definition visibleRowList :: "host \<Rightarrow> session \<Rightarrow> TableRow list" where
  "visibleRowList h s =
     (case currentTableData s of
        None \<Rightarrow> []
      | Some td \<Rightarrow> (let (visible, st) = visibleRows h s td in st ! visible))"

definition toggleSort :: "host \<Rightarrow> int \<Rightarrow> session \<Rightarrow> session" where
  "toggleSort h column s =
     applyTableState h
       (if columnIndex (sortState s) = column then
          (if direction (sortState s) = Some asc
             then s\<lparr>sortState := (sortState s)\<lparr>direction := Some desc\<rparr>\<rparr>
           else if direction (sortState s) = Some desc
             then s\<lparr>sortState := \<lparr>columnIndex = - 1, direction = None\<rparr>\<rparr>
           else s\<lparr>sortState := (sortState s)\<lparr>direction := Some asc\<rparr>\<rparr>)
        else s\<lparr>sortState := \<lparr>columnIndex = column, direction = Some asc\<rparr>\<rparr>)"

text \<open>The \<open>input\<close> listeners of the global search box and of a column's filter box.\<close>

definition setGlobalFilter :: "host \<Rightarrow> string \<Rightarrow> session \<Rightarrow> session" where
  "setGlobalFilter h v s = applyTableState h (s\<lparr>globalFilter := v\<rparr>)"

definition setColumnFilter :: "host \<Rightarrow> nat \<Rightarrow> string \<Rightarrow> session \<Rightarrow> session" where
  "setColumnFilter h idx v s =
     applyTableState h (s\<lparr>columnFilters := assign_index (columnFilters s) idx v\<rparr>)"

datatype GridAction = FilterEdit nat string | SearchEdit string | SortToggle int

fun gridStep :: "host \<Rightarrow> session \<Rightarrow> GridAction \<Rightarrow> session" where
  "gridStep h s (FilterEdit idx v) = setColumnFilter h idx v s"
| "gridStep h s (SearchEdit v) = setGlobalFilter h v s"
| "gridStep h s (SortToggle column) = toggleSort h column s"

definition gridRun :: "host \<Rightarrow> session \<Rightarrow> GridAction list \<Rightarrow> session" where
  "gridRun h s acts = foldl (gridStep h) s acts"

section \<open>Ingesting a result\<close>

text \<open>
  The loop of \<open>renderResults\<close> over the rows and, inside it, over the fields: a row that
  \<open>table.get\<close> does not return is skipped, and the first cell whose rendering throws ends
  the loop with that error.
\<close>

fun buildRow :: "host \<Rightarrow> string list \<Rightarrow> (string \<times> jsvalue) list \<Rightarrow> js_error + TableRow" where
  "buildRow h [] row = Inr \<lparr>raw = [], display = []\<rparr>"
| "buildRow h (f # fs) row =
     (case formatCell h (row_get row f) of
        Inl e \<Rightarrow> Inl e
      | Inr d \<Rightarrow>
          (case buildRow h fs row of
             Inl e \<Rightarrow> Inl e
           | Inr r \<Rightarrow> Inr \<lparr>raw = row_get row f # raw r, display = d # display r\<rparr>))"

fun buildRows ::
  "host \<Rightarrow> string list \<Rightarrow> (string \<times> jsvalue) list option list \<Rightarrow> js_error + TableRow list" where
  "buildRows h fs [] = Inr []"
| "buildRows h fs (None # rest) = buildRows h fs rest"
| "buildRows h fs (Some row # rest) =
     (case buildRow h fs row of
        Inl e \<Rightarrow> Inl e
      | Inr r \<Rightarrow>
          (case buildRows h fs rest of
             Inl e \<Rightarrow> Inl e
           | Inr rs \<Rightarrow> Inr (r # rs)))"

definition buildTableSkeleton :: "string list \<Rightarrow> session \<Rightarrow> session" where
  "buildTableSkeleton cols s =
     (case resultsContainer s of
        None \<Rightarrow> s
      | Some _ \<Rightarrow>
          s\<lparr>resultsContainer := Some (TableSkeleton cols),
            tableBodyElement := Some (BodyRows [])\<rparr>)"

text \<open>
  \<open>renderResults\<close>: the session after the call and the error thrown, if any. An error
  leaves the assignments made before it in place.
\<close>

definition renderResults :: "host \<Rightarrow> Table option \<Rightarrow> session \<Rightarrow> session \<times> js_error option" where
  "renderResults h table s =
     (case resultsContainer s of
        None \<Rightarrow> (s, None)
      | Some _ \<Rightarrow>
          (let noRows =
                 (updateRowCount 0 0
                    (s\<lparr>resultsContainer := Some EmptyState,
                       currentTableData := None,
                       tableBodyElement := None\<rparr>)
                    \<lparr>lastArrowResult := table\<rparr>,
                  None)
           in case table of
                None \<Rightarrow> noRows
              | Some t \<Rightarrow>
                  (if numRows t = 0 then noRows
                   else
                     (let s1 = s\<lparr>lastArrowResult := table\<rparr>;
                          cols = schemaFields t
                      in case buildRows h (schemaFields t) (tableRows t) of
                           Inl e \<Rightarrow> (s1, Some e)
                         | Inr rs \<Rightarrow>
                             (let (r, st) = alloc rs (arrays s1);
                                  s2 = s1\<lparr>arrays := st,
                                          currentTableData := Some \<lparr>columns = cols, rows = r\<rparr>,
                                          columnFilters := map (\<lambda>_. []) cols,
                                          globalFilter := [],
                                          sortState := \<lparr>columnIndex = - 1, direction = None\<rparr>\<rparr>
                              in (applyTableState h (buildTableSkeleton cols s2), None))))))"

section \<open>The history ledger and the query executor\<close>

definition recordQueryHistory :: "QueryHistoryEntry \<Rightarrow> session \<Rightarrow> session" where
  "recordQueryHistory entry s = s\<lparr>queryHistory := take 25 (entry # queryHistory s)\<rparr>"

text \<open>\<open>await connection.query(sql)\<close>: the call is logged and the clock moves on.\<close>

definition connection_query :: "engine \<Rightarrow> string \<Rightarrow> session \<Rightarrow> (js_error + Table option) \<times> session" where
  "connection_query eng text s =
     (query eng (engineLog s) text,
      s\<lparr>engineLog := engineLog s @ [Query text],
        clock := clock s + elapsed eng (engineLog s @ [Query text])\<rparr>)"

text \<open>
  \<open>runQuery\<close>: the session after the call and the error the promise is rejected with, if
  any. The \<open>catch\<close> block takes the errors of the engine and of \<open>renderResults\<close> alike,
  records the failed run and throws the error again; \<open>finally\<close> enables the button.
\<close>

definition runQuery :: "host \<Rightarrow> engine \<Rightarrow> string \<Rightarrow> session \<Rightarrow> session \<times> js_error option" where
  "runQuery h eng text s =
     (if \<not> connection s then (s, Some (Error ''No database connection.''))
      else
        (let normalizedSql = trim text in
         if normalizedSql = [] then (updateStatus ''Enter a SQL query to run.'' s, None)
         else
           (let s1 = (updateStatus ''Running query...'' s)\<lparr>runButtonDisabled := True\<rparr>;
                start = clock s1;
                entryBase = \<lparr>entry_id = nextHistoryId s1, sql = normalizedSql,
                             timestamp = clock s1, durationMs = 0, rowCount = 0,
                             error = None\<rparr>;
                s2 = s1\<lparr>nextHistoryId := nextHistoryId s1 + 1\<rparr>;
                (reply, s3) = connection_query eng normalizedSql s2;
                failed = (\<lambda>e s'.
                   ((recordQueryHistory
                       (entryBase\<lparr>durationMs := clock s' - start, error := Some (message e)\<rparr>) s')
                      \<lparr>runButtonDisabled := False\<rparr>,
                    Some e))
            in case reply of
                 Inl e \<Rightarrow> failed e s3
               | Inr result \<Rightarrow>
                   (case renderResults h result s3 of
                      (s4, Some e) \<Rightarrow> failed e s4
                    | (s4, None) \<Rightarrow>
                        ((recordQueryHistory
                            (entryBase\<lparr>durationMs := clock s4 - start,
                                       rowCount := (case result of None \<Rightarrow> 0
                                                    | Some t \<Rightarrow> numRows t)\<rparr>) s4)
                           \<lparr>runButtonDisabled := False\<rparr>,
                         None)))))"

section \<open>The export pipeline\<close>

text \<open>
  The horizontal ellipsis of the status messages is a code unit above 255; it stands here
  as the three bytes of its UTF-8 encoding.
\<close>

definition ellipsis :: string where
  "ellipsis = [CHR 0xE2, CHR 0x80, CHR 0xA6]"

fun formatName :: "ExportFormat \<Rightarrow> string" where
  "formatName csv = ''csv''"
| "formatName parquet = ''parquet''"
| "formatName arrow = ''arrow''"

fun formatUpperCase :: "ExportFormat \<Rightarrow> string" where
  "formatUpperCase csv = ''CSV''"
| "formatUpperCase parquet = ''PARQUET''"
| "formatUpperCase arrow = ''ARROW''"

text \<open>
  \<open>sql.replace(/;\s*$/g, '').trim()\<close>: the leftmost semicolon with nothing but white space
  after it is cut off with what follows.
\<close>

fun strip_final_semicolon :: "string \<Rightarrow> string" where
  "strip_final_semicolon [] = []"
| "strip_final_semicolon (c # cs) =
     (if c = CHR '';'' \<and> list_all is_ws cs then [] else c # strip_final_semicolon cs)"

definition normalizeSqlForEmbedding :: "string \<Rightarrow> string" where
  "normalizeSqlForEmbedding text = trim (strip_final_semicolon text)"

definition requestFileSave :: "string \<Rightarrow> nat list \<Rightarrow> ExportFormat \<Rightarrow> session \<Rightarrow> session" where
  "requestFileSave name buf fmt s =
     (updateExportStatus (''Choose where to save the file'' @ ellipsis) s)
       \<lparr>posted := posted s @ [\<lparr>fileName = name, format = fmt, buffer = buf\<rparr>]\<rparr>"

definition db_copyFileToBuffer :: "engine \<Rightarrow> string \<Rightarrow> session \<Rightarrow> (js_error + nat list) \<times> session" where
  "db_copyFileToBuffer eng path s =
     (copyFileToBuffer eng (engineLog s) path,
      s\<lparr>engineLog := engineLog s @ [CopyFileToBuffer path],
        clock := clock s + elapsed eng (engineLog s @ [CopyFileToBuffer path])\<rparr>)"

definition db_dropFile :: "engine \<Rightarrow> string \<Rightarrow> session \<Rightarrow> js_error option \<times> session" where
  "db_dropFile eng path s =
     (dropFile eng (engineLog s) path,
      s\<lparr>engineLog := engineLog s @ [DropFile path],
        clock := clock s + elapsed eng (engineLog s @ [DropFile path])\<rparr>)"

text \<open>
  \<open>exportResult\<close>: the session after the call and the error the promise is rejected with,
  if any.
\<close>

definition exportResult :: "host \<Rightarrow> engine \<Rightarrow> ExportFormat \<Rightarrow> session \<Rightarrow> session \<times> js_error option" where
  "exportResult h eng fmt s =
     (if \<not> connection s \<or> \<not> db s then (s, Some (Error ''DuckDB is not ready for export.''))
      else
        (let baseName = ''duckdb_result'';
             normalizedQuery = trim (sqlInput s)
         in
         if normalizedQuery = []
         then (updateExportStatus ''Write a SQL query to export first.'' s, None)
         else
           (let s1 = updateExportStatus
                       (''Preparing '' @ formatUpperCase fmt @ '' export'' @ ellipsis) s
            in
            if fmt = arrow then
              (let (s2, thrown) =
                     (if lastArrowResult s1 = None then runQuery h eng normalizedQuery s1
                      else (s1, None))
               in case thrown of
                    Some e \<Rightarrow> (s2, Some e)
                  | None \<Rightarrow>
                      (case lastArrowResult s2 of
                         None \<Rightarrow>
                           (updateExportStatus ''Run the query before exporting to Arrow.'' s2,
                            None)
                       | Some t \<Rightarrow>
                           (requestFileSave (baseName @ ''.arrow'') (tableToIPC eng t) fmt s2,
                            None)))
            else
              (let exportPath = ''memory://duckdb-viewer/''
                                @ numberToString h (real (clock s1)) @ ''.'' @ formatName fmt;
                   wrappedQuery = normalizeSqlForEmbedding normalizedQuery;
                   copyStatement =
                     (if fmt = csv
                      then ''COPY ('' @ wrappedQuery @ '') TO '' @ [CHR 0x27] @ exportPath
                           @ [CHR 0x27] @ '' (FORMAT CSV, HEADER true);''
                      else ''COPY ('' @ wrappedQuery @ '') TO '' @ [CHR 0x27] @ exportPath
                           @ [CHR 0x27] @ '' (FORMAT PARQUET);'');
                   (copied, s2) = connection_query eng copyStatement s1
               in case copied of
                    Inl e \<Rightarrow> (s2, Some e)
                  | Inr _ \<Rightarrow>
                      (let (read, s3) = db_copyFileToBuffer eng exportPath s2
                       in case read of
                            Inl e \<Rightarrow> (s3, Some e)
                          | Inr buf \<Rightarrow>
                              (let (dropped, s4) = db_dropFile eng exportPath s3
                               in case dropped of
                                    Some e \<Rightarrow> (s4, Some e)
                                  | None \<Rightarrow>
                                      (let extension = (if fmt = csv then ''csv'' else ''parquet'')
                                       in (requestFileSave (baseName @ ''.'' @ extension) buf fmt s4,
                                           None))))))))"

section \<open>Notions of the specification and concrete inputs\<close>

text \<open>A run of record operations on the ledger, the oldest entry first.\<close>

definition recordAll :: "QueryHistoryEntry list \<Rightarrow> session \<Rightarrow> session" where
  "recordAll es s = foldl (\<lambda>s' e. recordQueryHistory e s') s es"

text \<open>The values the specification names for an empty display text.\<close>

definition nullish_or_nonfinite :: "jsvalue \<Rightarrow> bool" where
  "nullish_or_nonfinite v =
     (v = JNull \<or> v = JUndefined \<or> v = JNumber NaN \<or> v = JNumber PosInfinity
      \<or> v = JNumber NegInfinity)"

text \<open>
  A runtime whose renderings of finite numbers, bigints, valid dates and objects are never
  the empty string, as those of JavaScript are.
\<close>

definition rendersNonEmpty :: "host \<Rightarrow> bool" where
  "rendersNonEmpty h =
     ((\<forall>x. numberToString h x \<noteq> []) \<and> (\<forall>i. bigintToString h i \<noteq> [])
      \<and> (\<forall>t. toISOString h t \<noteq> [])
      \<and> (\<forall>r. jsonStringify h r \<noteq> Some [])
      \<and> (\<forall>r. jsonStringify h r = None \<longrightarrow> objectToString h r \<noteq> []))"

text \<open>A small runtime, two engines, two tables and the state of a freshly loaded page.\<close>

definition exampleHost :: host where
  "exampleHost =
     \<lparr>numberToString = (\<lambda>x. if x = 1 then ''1'' else if x = 2 then ''2'' else ''0''),
      bigintToString = (\<lambda>i. ''0''),
      toISOString = (\<lambda>t. ''1970-01-01T00:00:00.000Z''),
      jsonStringify = (\<lambda>r. Some ''{}''),
      objectToString = (\<lambda>r. ''[object Object]''),
      localeCompare = (\<lambda>a b. if a = b then 0 else int (length a) - int (length b))\<rparr>"

definition exampleTable :: Table where
  "exampleTable =
     \<lparr>schemaFields = [''a'', ''b''],
      tableRows = [Some [(''a'', JNumber (Finite 2)), (''b'', JString ''y'')],
                   Some [(''a'', JNumber (Finite 1)), (''b'', JString ''x'')]]\<rparr>"

definition emptyTable :: Table where
  "emptyTable = \<lparr>schemaFields = [''a'', ''b''], tableRows = []\<rparr>"

definition exampleEngine :: engine where
  "exampleEngine =
     \<lparr>query = (\<lambda>calls text. Inr (Some exampleTable)),
      copyFileToBuffer = (\<lambda>calls path. Inr [97, 44, 98]),
      dropFile = (\<lambda>calls path. None),
      elapsed = (\<lambda>calls. 5),
      tableToIPC = (\<lambda>t. [65, 82, 82, 79, 87, 49])\<rparr>"

definition failingEngine :: engine where
  "failingEngine = exampleEngine\<lparr>query := (\<lambda>calls text. Inl (Error ''Parser Error''))\<rparr>"

definition freshSession :: session where
  "freshSession =
     \<lparr>db = True, connection = True, arrays = [], currentTableData = None,
      columnFilters = [], globalFilter = [],
      sortState = \<lparr>columnIndex = - 1, direction = None\<rparr>,
      tableBodyElement = None, queryHistory = [], nextHistoryId = 1,
      lastArrowResult = None, sqlInput = [], runButtonDisabled = False,
      resultsContainer = Some Untouched, status = Some [], exportStatus = Some [],
      rowCountLabel = Some NoRowsToDisplay, clock = 0, engineLog = [], posted = []\<rparr>"

text \<open>The page after the example table was ingested, and after a search was typed.\<close>

definition populatedSession :: session where
  "populatedSession = fst (renderResults exampleHost (Some exampleTable) freshSession)"

definition searchedSession :: session where
  "searchedSession = setGlobalFilter exampleHost ''x'' populatedSession"

section \<open>Properties of the identifier sanitizer\<close>

lemma sanitize_chars: "list_all is_ident_char (sanitize s)"
  by (induction s) (simp_all add: sanitize_def is_ident_char_def)

lemma ident_not_digit_start: "is_ident_char c \<Longrightarrow> \<not> is_digit c \<Longrightarrow> is_ident_start c"
  by (auto simp: is_ident_char_def is_ident_start_def)

lemma split_seps_nonempty: "split_seps s \<noteq> []"
  by (induction s) (auto split: list.splits)

lemma split_seps_single: "split_seps s = [w] \<Longrightarrow> s = w \<and> \<not> list_ex is_sep w"
proof (induction s arbitrary: w)
  case Nil
  then show ?case by simp
next
  case (Cons c cs)
  show ?case
  proof (cases "is_sep c")
    case True
    with Cons.prems split_seps_nonempty [of cs] show ?thesis by simp
  next
    case False
    with Cons.prems split_seps_nonempty [of cs]
    obtain w' where "split_seps cs = [w']" and "w = c # w'"
      by (auto split: list.splits)
    with Cons.IH [of w'] False show ?thesis by simp
  qed
qed

lemma split_seps_no_sep: "\<not> list_ex is_sep s \<Longrightarrow> split_seps s = [s]"
  by (induction s) auto

lemma split_seps_last:
  "\<exists>dir. s = dir @ last (split_seps s) \<and> (dir = [] \<or> is_sep (last dir))
     \<and> \<not> list_ex is_sep (last (split_seps s))"
proof (induction s)
  case Nil
  show ?case by simp
next
  case (Cons c cs)
  from Cons.IH obtain dir where dir: "cs = dir @ last (split_seps cs)"
    "dir = [] \<or> is_sep (last dir)" "\<not> list_ex is_sep (last (split_seps cs))"
    by blast
  show ?case
  proof (cases "is_sep c")
    case True
    then have "last (split_seps (c # cs)) = last (split_seps cs)"
      using split_seps_nonempty [of cs] by simp
    with dir True show ?thesis
      by (intro exI [of _ "c # dir"]) auto
  next
    case False
    obtain w ws where w: "split_seps cs = w # ws"
      using split_seps_nonempty [of cs] by (cases "split_seps cs") auto
    show ?thesis
    proof (cases ws)
      case Nil
      with w have "cs = w \<and> \<not> list_ex is_sep w" by (simp add: split_seps_single)
      with w Nil False show ?thesis by (intro exI [of _ "[]"]) simp
    next
      case (Cons x xs)
      with w have l: "last (split_seps (c # cs)) = last (split_seps cs)"
        using False by simp
      have "dir \<noteq> []"
      proof
        assume "dir = []"
        with dir have "\<not> list_ex is_sep cs" by simp
        then have "split_seps cs = [cs]" by (rule split_seps_no_sep)
        with w Cons show False by simp
      qed
      with dir l show ?thesis by (intro exI [of _ "c # dir"]) auto
    qed
  qed
qed

lemma baseName_last: "baseName s = last (split_seps s)"
  using split_seps_nonempty [of s]
  by (cases "split_seps s" rule: rev_cases) (simp_all add: baseName_def pop_def)

lemma strip_extension_final:
  "e \<noteq> [] \<Longrightarrow> list_all (\<lambda>d. d \<noteq> CHR ''.'') e \<Longrightarrow> strip_extension (p @ CHR ''.'' # e) = p"
  by (induction p) (auto simp: list_all_iff)

lemma strip_extension_none:
  "list_all (\<lambda>d. d \<noteq> CHR ''.'') s \<Longrightarrow> strip_extension s = s"
  by (induction s) auto

lemma strip_extension_cases:
  "strip_extension s = s \<or>
   (\<exists>e. s = strip_extension s @ CHR ''.'' # e \<and> e \<noteq> [] \<and> list_all (\<lambda>d. d \<noteq> CHR ''.'') e)"
proof (induction s)
  case Nil
  show ?case by simp
next
  case (Cons c cs)
  show ?case
  proof (cases "c = CHR ''.'' \<and> cs \<noteq> [] \<and> list_all (\<lambda>d. d \<noteq> CHR ''.'') cs")
    case True
    then show ?thesis by simp
  next
    case False
    with Cons.IH show ?thesis by auto
  qed
qed

lemma strip_extension_split:
  "(strip_extension s = s \<and>
      \<not> (\<exists>p e. s = p @ CHR ''.'' # e \<and> e \<noteq> [] \<and> list_all (\<lambda>d. d \<noteq> CHR ''.'') e))
   \<or> (\<exists>e. s = strip_extension s @ CHR ''.'' # e \<and> e \<noteq> [] \<and> list_all (\<lambda>d. d \<noteq> CHR ''.'') e)"
proof (cases "strip_extension s = s")
  case True
  have "\<not> (\<exists>p e. s = p @ CHR ''.'' # e \<and> e \<noteq> [] \<and> list_all (\<lambda>d. d \<noteq> CHR ''.'') e)"
  proof
    assume "\<exists>p e. s = p @ CHR ''.'' # e \<and> e \<noteq> [] \<and> list_all (\<lambda>d. d \<noteq> CHR ''.'') e"
    then obtain p e where s: "s = p @ CHR ''.'' # e" and "e \<noteq> []"
      and "list_all (\<lambda>d. d \<noteq> CHR ''.'') e" by blast
    then have "strip_extension s = p" by (simp add: strip_extension_final)
    with True s show False by simp
  qed
  with True show ?thesis by simp
next
  case False
  with strip_extension_cases [of s] show ?thesis by simp
qed

text \<open>
  Claim C8. The sanitizer \<open>generateViewName\<close> is a total function of the file name. Its
  result matches \<open>^[A-Za-z_][A-Za-z0-9_]*$\<close> and is never empty. On the way it takes the
  trailing path component (what follows the last separator, itself free of separators),
  cuts off the final extension (a dot followed to the end by at least one character and no
  further dot, when there is one), replaces every character outside \<open>[A-Za-z0-9_]\<close> by an
  underscore, puts \<open>data_view\<close> for an empty result and \<open>v_\<close> before a leading digit.
\<close>

theorem generateViewName_safe:
  "simplePattern (generateViewName name)
   \<and> generateViewName name \<noteq> []
   \<and> (\<exists>dir. name = dir @ baseName name \<and> (dir = [] \<or> is_sep (last dir)))
   \<and> \<not> list_ex is_sep (baseName name)
   \<and> ((strip_extension (baseName name) = baseName name
         \<and> \<not> (\<exists>p e. baseName name = p @ CHR ''.'' # e \<and> e \<noteq> []
                  \<and> list_all (\<lambda>d. d \<noteq> CHR ''.'') e))
       \<or> (\<exists>e. baseName name = strip_extension (baseName name) @ CHR ''.'' # e \<and> e \<noteq> []
                  \<and> list_all (\<lambda>d. d \<noteq> CHR ''.'') e))
   \<and> sanitize (strip_extension (baseName name))
       = map (\<lambda>c. if is_ident_char c then c else CHR ''_'') (strip_extension (baseName name))
   \<and> generateViewName name =
       (if sanitize (strip_extension (baseName name)) = [] then ''data_view''
        else if is_digit (hd (sanitize (strip_extension (baseName name))))
          then ''v_'' @ sanitize (strip_extension (baseName name))
        else sanitize (strip_extension (baseName name)))"
proof -
  define s where "s = sanitize (strip_extension (baseName name))"
  have all: "list_all is_ident_char s" unfolding s_def by (rule sanitize_chars)
  have gen: "generateViewName name =
      (if s = [] then ''data_view'' else if is_digit (hd s) then ''v_'' @ s else s)"
    by (cases s) (simp_all add: generateViewName_def s_def [symmetric] Let_def is_digit_def)
  have safe: "simplePattern (generateViewName name) \<and> generateViewName name \<noteq> []"
  proof (cases s)
    case Nil
    then show ?thesis
      by (simp add: gen simplePattern_def is_ident_start_def is_ident_char_def is_digit_def
          is_lower_def is_upper_def)
  next
    case (Cons c cs)
    with all have c: "is_ident_char c" and cs: "list_all is_ident_char cs" by simp_all
    show ?thesis
    proof (cases "is_digit c")
      case True
      with Cons c cs show ?thesis
        by (simp add: gen simplePattern_def is_ident_start_def is_ident_char_def is_lower_def)
    next
      case False
      with Cons c cs show ?thesis
        by (simp add: gen simplePattern_def ident_not_digit_start)
    qed
  qed
  have base: "(\<exists>dir. name = dir @ baseName name \<and> (dir = [] \<or> is_sep (last dir)))
      \<and> \<not> list_ex is_sep (baseName name)"
    using split_seps_last [of name] by (auto simp: baseName_last)
  have san: "sanitize (strip_extension (baseName name))
       = map (\<lambda>c. if is_ident_char c then c else CHR ''_'') (strip_extension (baseName name))"
    by (simp add: sanitize_def)
  from safe base strip_extension_split [of "baseName name"] san gen [unfolded s_def]
  show ?thesis by blast
qed

section \<open>Properties of the loader registry\<close>

lemma ends_with_iff: "ends_with s suf \<longleftrightarrow> (\<exists>p. s = p @ suf)"
proof
  assume "ends_with s suf"
  then have "s = take (length s - length suf) s @ suf"
    by (metis append_take_drop_id ends_with_def)
  then show "\<exists>p. s = p @ suf" ..
next
  assume "\<exists>p. s = p @ suf"
  then show "ends_with s suf" by (auto simp: ends_with_def)
qed

lemma test_extension_iff:
  "test_extension ext name \<longleftrightarrow> (\<exists>stem e. name = stem @ e \<and> map fold_char e = CHR ''.'' # ext)"
proof
  assume "test_extension ext name"
  then obtain p where "map fold_char name = p @ CHR ''.'' # ext"
    by (auto simp: test_extension_def ends_with_iff)
  then have "drop (length p) (map fold_char name) = CHR ''.'' # ext" by simp
  then have e: "map fold_char (drop (length p) name) = CHR ''.'' # ext"
    by (simp only: drop_map)
  have n: "name = take (length p) name @ drop (length p) name" by simp
  from n e show "\<exists>stem e. name = stem @ e \<and> map fold_char e = CHR ''.'' # ext"
    by (intro exI [of _ "take (length p) name"] exI [of _ "drop (length p) name"] conjI)
next
  assume "\<exists>stem e. name = stem @ e \<and> map fold_char e = CHR ''.'' # ext"
  then obtain stem e where "name = stem @ e" and "map fold_char e = CHR ''.'' # ext"
    by (elim exE conjE)
  then have "map fold_char name = map fold_char stem @ CHR ''.'' # ext" by simp
  then have "\<exists>p. map fold_char name = p @ CHR ''.'' # ext" ..
  then show "test_extension ext name"
    by (simp only: test_extension_def ends_with_iff)
qed

text \<open>
  Claim C7. For every file name, \<open>selectLoader\<close> returns the first loader of the order
  Arrow, Parquet, CSV whose \<open>canLoad\<close> holds, and the CSV loader when none holds. Each
  \<open>canLoad\<close> is a test of the end of the name, the letters A to Z read in either case:
  \<open>.arrow\<close> or \<open>.ipc\<close> for Arrow, \<open>.parquet\<close> or \<open>.parq\<close> for Parquet, \<open>.csv\<close> for CSV.
  The selection is a total function of the name alone: it reads no file and cannot fail.
\<close>

theorem selectLoader_priority:
  "selectLoader name =
     (if canLoad arrowLoader name then arrowLoader
      else if canLoad parquetLoader name then parquetLoader
      else csvLoader)
   \<and> (canLoad arrowLoader name \<longleftrightarrow>
        (\<exists>stem e. name = stem @ e \<and> (map fold_char e = ''.arrow'' \<or> map fold_char e = ''.ipc'')))
   \<and> (canLoad parquetLoader name \<longleftrightarrow>
        (\<exists>stem e. name = stem @ e
           \<and> (map fold_char e = ''.parquet'' \<or> map fold_char e = ''.parq'')))
   \<and> (canLoad csvLoader name \<longleftrightarrow>
        (\<exists>stem e. name = stem @ e \<and> map fold_char e = ''.csv''))"
proof -
  have sel: "selectLoader name =
     (if canLoad arrowLoader name then arrowLoader
      else if canLoad parquetLoader name then parquetLoader
      else csvLoader)"
    by (simp add: selectLoader_def DATA_LOADERS_def)
  have a: "canLoad arrowLoader name \<longleftrightarrow>
        (\<exists>stem e. name = stem @ e \<and> (map fold_char e = ''.arrow'' \<or> map fold_char e = ''.ipc''))"
    unfolding canLoad.simps test_extension_iff by (simp only: ex_disj_distrib conj_disj_distribL)
  have p: "canLoad parquetLoader name \<longleftrightarrow>
        (\<exists>stem e. name = stem @ e
           \<and> (map fold_char e = ''.parquet'' \<or> map fold_char e = ''.parq''))"
    unfolding canLoad.simps test_extension_iff by (simp only: ex_disj_distrib conj_disj_distribL)
  have c: "canLoad csvLoader name \<longleftrightarrow>
        (\<exists>stem e. name = stem @ e \<and> map fold_char e = ''.csv'')"
    unfolding canLoad.simps test_extension_iff by (rule refl)
  from sel a p c show ?thesis by (intro conjI)
qed

section \<open>Properties of the result grid\<close>

lemma trim_empty: "trim [] = []" by (simp add: trim_def)

lemma lower_empty: "toLowerCase [] = []" by (simp add: toLowerCase_def)

lemma list_all_zip_fst:
  "list_all P xs \<Longrightarrow> length ys = length xs \<Longrightarrow> list_all (\<lambda>(a, b). P a) (zip xs ys)"
  by (induction xs arbitrary: ys) (auto simp: length_Suc_conv)

lemma rowPasses_no_filters:
  assumes "list_all (\<lambda>f. f = []) fs"
  shows "rowPasses [] fs row"
proof -
  have "list_all (\<lambda>(a, b). a = []) (zip fs [0..<length fs])"
    using assms by (intro list_all_zip_fst) simp_all
  then have "list_all (\<lambda>(flt, idx). if flt = [] then True
           else js_includes
             (toLowerCase (case at_index (display row) idx of None \<Rightarrow> [] | Some t \<Rightarrow> t)) flt)
        (zip fs [0..<length fs])"
    by (auto simp: list_all_iff)
  then show ?thesis by (simp add: rowPasses_def)
qed

lemma visibleRows_unsorted:
  assumes "direction (sortState s) = None \<or> columnIndex (sortState s) < 0"
  shows "visibleRows h s td =
     (Suc (length (arrays s)),
      arrays s @ [filter (rowPasses (toLowerCase (trim (globalFilter s)))
                    (map (\<lambda>v. toLowerCase (trim v)) (columnFilters s))) (arrays s ! rows td)]
       @ [filter (rowPasses (toLowerCase (trim (globalFilter s)))
                    (map (\<lambda>v. toLowerCase (trim v)) (columnFilters s))) (arrays s ! rows td)])"
  using assms
  by (auto simp: visibleRows_def array_filter_def array_spread_def alloc_def Let_def nth_append)

lemma visibleRows_sorted:
  assumes "direction (sortState s) \<noteq> None" "columnIndex (sortState s) \<ge> 0"
  shows "visibleRows h s td =
     (Suc (length (arrays s)),
      arrays s @ [filter (rowPasses (toLowerCase (trim (globalFilter s)))
                    (map (\<lambda>v. toLowerCase (trim v)) (columnFilters s))) (arrays s ! rows td)]
       @ [sort_by (rowComparator h (nat (columnIndex (sortState s)))
                     (if direction (sortState s) = Some asc then 1 else - 1))
           (filter (rowPasses (toLowerCase (trim (globalFilter s)))
                    (map (\<lambda>v. toLowerCase (trim v)) (columnFilters s))) (arrays s ! rows td))])"
  using assms
  by (auto simp: visibleRows_def array_filter_def array_spread_def array_sort_def alloc_def
      Let_def nth_append)

lemma visibleRows_store:
  "\<exists>a b. snd (visibleRows h s td) = arrays s @ [a, b] \<and> fst (visibleRows h s td) = Suc (length (arrays s))"
proof (cases "direction (sortState s) \<noteq> None \<and> columnIndex (sortState s) \<ge> 0")
  case True
  then show ?thesis by (simp add: visibleRows_sorted)
next
  case False
  then have "direction (sortState s) = None \<or> columnIndex (sortState s) < 0" by auto
  then show ?thesis by (simp add: visibleRows_unsorted)
qed

lemma updateRowCount_fields [simp]:
  "arrays (updateRowCount v t s) = arrays s"
  "currentTableData (updateRowCount v t s) = currentTableData s"
  "columnFilters (updateRowCount v t s) = columnFilters s"
  "globalFilter (updateRowCount v t s) = globalFilter s"
  "sortState (updateRowCount v t s) = sortState s"
  "tableBodyElement (updateRowCount v t s) = tableBodyElement s"
  "queryHistory (updateRowCount v t s) = queryHistory s"
  "nextHistoryId (updateRowCount v t s) = nextHistoryId s"
  "engineLog (updateRowCount v t s) = engineLog s"
  "posted (updateRowCount v t s) = posted s"
  "clock (updateRowCount v t s) = clock s"
  "lastArrowResult (updateRowCount v t s) = lastArrowResult s"
  "resultsContainer (updateRowCount v t s) = resultsContainer s"
  by (simp_all add: updateRowCount_def split: option.splits)

lemma applyTableState_fields [simp]:
  "currentTableData (applyTableState h s) = currentTableData s"
  "columnFilters (applyTableState h s) = columnFilters s"
  "globalFilter (applyTableState h s) = globalFilter s"
  "sortState (applyTableState h s) = sortState s"
  "queryHistory (applyTableState h s) = queryHistory s"
  "nextHistoryId (applyTableState h s) = nextHistoryId s"
  "engineLog (applyTableState h s) = engineLog s"
  "posted (applyTableState h s) = posted s"
  "clock (applyTableState h s) = clock s"
  "lastArrowResult (applyTableState h s) = lastArrowResult s"
  "resultsContainer (applyTableState h s) = resultsContainer s"
  by (simp_all add: applyTableState_def Let_def split: option.splits prod.splits)

lemma applyTableState_arrays:
  "\<exists>ext. arrays (applyTableState h s) = arrays s @ ext"
proof (cases "currentTableData s")
  case None
  then show ?thesis by (simp add: applyTableState_def)
next
  case (Some td)
  show ?thesis
  proof (cases "tableBodyElement s")
    case None
    with Some show ?thesis by (simp add: applyTableState_def)
  next
    case (Some tb)
    obtain a b where ab: "snd (visibleRows h s td) = arrays s @ [a, b]"
      using visibleRows_store by blast
    obtain v st where vst: "visibleRows h s td = (v, st)"
      by (cases "visibleRows h s td")
    with ab have "st = arrays s @ [a, b]" by simp
    with vst Some \<open>currentTableData s = Some td\<close> show ?thesis
      by (simp add: applyTableState_def Let_def)
  qed
qed

lemma applyTableState_body:
  "(tableBodyElement (applyTableState h s) = None) = (tableBodyElement s = None)"
  by (simp add: applyTableState_def Let_def split: option.splits prod.splits)

lemma visibleRowList_cong:
  assumes "currentTableData s' = currentTableData s"
      and "columnFilters s' = columnFilters s"
      and "globalFilter s' = globalFilter s"
      and "sortState s' = sortState s"
      and "\<And>td. currentTableData s = Some td \<Longrightarrow> arrays s' ! rows td = arrays s ! rows td"
  shows "visibleRowList h s' = visibleRowList h s"
proof (cases "currentTableData s")
  case None
  with assms show ?thesis by (simp add: visibleRowList_def)
next
  case (Some td)
  show ?thesis
  proof (cases "direction (sortState s) \<noteq> None \<and> columnIndex (sortState s) \<ge> 0")
    case True
    with Some assms show ?thesis
      by (simp add: visibleRowList_def visibleRows_sorted nth_append)
  next
    case False
    then have "direction (sortState s) = None \<or> columnIndex (sortState s) < 0" by auto
    with Some assms show ?thesis
      by (simp add: visibleRowList_def visibleRows_unsorted nth_append)
  qed
qed

lemma visibleRowList_unfiltered:
  assumes "currentTableData s = Some td"
      and "globalFilter s = []"
      and "list_all (\<lambda>f. f = []) (columnFilters s)"
      and "columnIndex (sortState s) = - 1"
  shows "visibleRowList h s = arrays s ! rows td
       \<and> length (visibleRowList h s) = length (arrays s ! rows td)
       \<and> (tableBodyElement s \<noteq> None \<longrightarrow>
            tableBodyElement (applyTableState h s) =
              Some (if arrays s ! rows td = []
                    then EmptyRow (if length (columns td) = 0 then 1 else length (columns td))
                    else BodyRows (map display (arrays s ! rows td))))"
proof -
  have unsorted: "direction (sortState s) = None \<or> columnIndex (sortState s) < 0"
    using assms(4) by simp
  have "list_all (\<lambda>f. f = []) (map (\<lambda>v. toLowerCase (trim v)) (columnFilters s))"
    using assms(3) by (induction "columnFilters s") (auto simp: list_all_iff trim_empty lower_empty)
  then have pass: "\<And>row. rowPasses (toLowerCase (trim (globalFilter s)))
        (map (\<lambda>v. toLowerCase (trim v)) (columnFilters s)) row"
    by (simp add: assms(2) trim_empty lower_empty rowPasses_no_filters)
  have vis: "visibleRows h s td =
      (Suc (length (arrays s)), arrays s @ [arrays s ! rows td] @ [arrays s ! rows td])"
    by (simp add: visibleRows_unsorted [OF unsorted] pass)
  have one: "visibleRowList h s = arrays s ! rows td"
    by (simp add: visibleRowList_def assms(1) vis nth_append)
  have body: "tableBodyElement s \<noteq> None \<Longrightarrow>
      tableBodyElement (applyTableState h s) =
        Some (if arrays s ! rows td = []
              then EmptyRow (if length (columns td) = 0 then 1 else length (columns td))
              else BodyRows (map display (arrays s ! rows td)))"
    by (auto simp: applyTableState_def assms(1) vis nth_append Let_def)
  from one body show ?thesis by simp
qed

lemma visibleRowList_applyTableState:
  assumes "\<And>td. currentTableData s = Some td \<Longrightarrow> rows td < length (arrays s)"
  shows "visibleRowList h (applyTableState h s) = visibleRowList h s"
proof (rule visibleRowList_cong)
  fix td assume "currentTableData s = Some td"
  then have "rows td < length (arrays s)" by (rule assms)
  moreover obtain ext where "arrays (applyTableState h s) = arrays s @ ext"
    using applyTableState_arrays by blast
  ultimately show "arrays (applyTableState h s) ! rows td = arrays s ! rows td"
    by (simp add: nth_append)
qed simp_all

lemma toggleSort_fields [simp]:
  "currentTableData (toggleSort h c s) = currentTableData s"
  "columnFilters (toggleSort h c s) = columnFilters s"
  "globalFilter (toggleSort h c s) = globalFilter s"
  by (simp_all add: toggleSort_def)

lemma toggleSort_sortState:
  "sortState (toggleSort h c s) =
     (if columnIndex (sortState s) = c then
        (if direction (sortState s) = Some asc then (sortState s)\<lparr>direction := Some desc\<rparr>
         else if direction (sortState s) = Some desc then \<lparr>columnIndex = - 1, direction = None\<rparr>
         else (sortState s)\<lparr>direction := Some asc\<rparr>)
      else \<lparr>columnIndex = c, direction = Some asc\<rparr>)"
  by (simp add: toggleSort_def)

lemma toggleSort_arrays: "\<exists>ext. arrays (toggleSort h c s) = arrays s @ ext"
proof -
  have "\<exists>ext. arrays (applyTableState h x) = arrays s @ ext" if "arrays x = arrays s" for x
    using applyTableState_arrays [of h x] that by simp
  then show ?thesis by (simp add: toggleSort_def)
qed

lemma gridStep_currentTableData [simp]:
  "currentTableData (gridStep h s a) = currentTableData s"
  by (cases a) (simp_all add: setColumnFilter_def setGlobalFilter_def)

lemma gridStep_arrays: "\<exists>ext. arrays (gridStep h s a) = arrays s @ ext"
proof (cases a)
  case (FilterEdit idx v)
  then show ?thesis
    using applyTableState_arrays [of h "s\<lparr>columnFilters := assign_index (columnFilters s) idx v\<rparr>"]
    by (simp add: setColumnFilter_def)
next
  case (SearchEdit v)
  then show ?thesis
    using applyTableState_arrays [of h "s\<lparr>globalFilter := v\<rparr>"]
    by (simp add: setGlobalFilter_def)
next
  case (SortToggle c)
  then show ?thesis using toggleSort_arrays by simp
qed

lemma gridRun_frame:
  "currentTableData (gridRun h s acts) = currentTableData s
   \<and> (\<exists>ext. arrays (gridRun h s acts) = arrays s @ ext)"
  unfolding gridRun_def
proof (induction acts arbitrary: s)
  case Nil
  show ?case by simp
next
  case (Cons a acts)
  obtain e1 where e1: "arrays (gridStep h s a) = arrays s @ e1"
    using gridStep_arrays by blast
  from Cons.IH [of "gridStep h s a"]
  obtain e2 where "arrays (foldl (gridStep h) (gridStep h s a) acts) = arrays (gridStep h s a) @ e2"
    and "currentTableData (foldl (gridStep h) (gridStep h s a) acts) = currentTableData (gridStep h s a)"
    by blast
  with e1 show ?case by simp
qed

lemma buildTableSkeleton_fields [simp]:
  "currentTableData (buildTableSkeleton cs s) = currentTableData s"
  "columnFilters (buildTableSkeleton cs s) = columnFilters s"
  "globalFilter (buildTableSkeleton cs s) = globalFilter s"
  "sortState (buildTableSkeleton cs s) = sortState s"
  "queryHistory (buildTableSkeleton cs s) = queryHistory s"
  "nextHistoryId (buildTableSkeleton cs s) = nextHistoryId s"
  "engineLog (buildTableSkeleton cs s) = engineLog s"
  "posted (buildTableSkeleton cs s) = posted s"
  "clock (buildTableSkeleton cs s) = clock s"
  "arrays (buildTableSkeleton cs s) = arrays s"
  "lastArrowResult (buildTableSkeleton cs s) = lastArrowResult s"
  by (simp_all add: buildTableSkeleton_def split: option.splits)

lemma updateStatus_fields [simp]:
  "queryHistory (updateStatus m s) = queryHistory s"
  "nextHistoryId (updateStatus m s) = nextHistoryId s"
  "engineLog (updateStatus m s) = engineLog s"
  "posted (updateStatus m s) = posted s"
  "clock (updateStatus m s) = clock s"
  "connection (updateStatus m s) = connection s"
  by (simp_all add: updateStatus_def split: option.splits)

lemma renderResults_fields [simp]:
  "queryHistory (fst (renderResults h t s)) = queryHistory s"
  "nextHistoryId (fst (renderResults h t s)) = nextHistoryId s"
  "engineLog (fst (renderResults h t s)) = engineLog s"
  "posted (fst (renderResults h t s)) = posted s"
  "clock (fst (renderResults h t s)) = clock s"
  by (simp_all add: renderResults_def Let_def alloc_def split: option.splits sum.splits prod.splits)

lemma renderResults_empty:
  assumes "resultsContainer s \<noteq> None" and "numRows t = 0"
  shows "renderResults h (Some t) s =
     (updateRowCount 0 0
        (s\<lparr>resultsContainer := Some EmptyState, currentTableData := None,
           tableBodyElement := None\<rparr>)
        \<lparr>lastArrowResult := Some t\<rparr>, None)"
  using assms by (auto simp: renderResults_def Let_def)

lemma renderResults_rows:
  assumes "resultsContainer s \<noteq> None" and "0 < numRows t"
      and "buildRows h (schemaFields t) (tableRows t) = Inr rs"
  shows "renderResults h (Some t) s =
     (applyTableState h (buildTableSkeleton (schemaFields t)
        (s\<lparr>lastArrowResult := Some t,
           arrays := arrays s @ [rs],
           currentTableData := Some \<lparr>columns = schemaFields t, rows = length (arrays s)\<rparr>,
           columnFilters := map (\<lambda>_. []) (schemaFields t),
           globalFilter := [],
           sortState := \<lparr>columnIndex = - 1, direction = None\<rparr>\<rparr>)), None)"
  using assms by (auto simp: renderResults_def Let_def alloc_def)

lemma exampleTable_rows:
  "buildRows exampleHost (schemaFields exampleTable) (tableRows exampleTable) =
     Inr [\<lparr>raw = [JNumber (Finite 2), JString ''y''], display = [''2'', ''y'']\<rparr>,
          \<lparr>raw = [JNumber (Finite 1), JString ''x''], display = [''1'', ''x'']\<rparr>]"
  by (simp add: exampleTable_def exampleHost_def row_get_def)

lemma populatedSession_eq:
  "populatedSession =
     applyTableState exampleHost (buildTableSkeleton (schemaFields exampleTable)
        (freshSession\<lparr>lastArrowResult := Some exampleTable,
           arrays := arrays freshSession @
             [[\<lparr>raw = [JNumber (Finite 2), JString ''y''], display = [''2'', ''y'']\<rparr>,
               \<lparr>raw = [JNumber (Finite 1), JString ''x''], display = [''1'', ''x'']\<rparr>]],
           currentTableData :=
             Some \<lparr>columns = schemaFields exampleTable, rows = length (arrays freshSession)\<rparr>,
           columnFilters := map (\<lambda>_. []) (schemaFields exampleTable),
           globalFilter := [],
           sortState := \<lparr>columnIndex = - 1, direction = None\<rparr>\<rparr>))"
proof -
  have c: "resultsContainer freshSession \<noteq> None" by (simp add: freshSession_def)
  have n: "0 < numRows exampleTable" by (simp add: numRows_def exampleTable_def)
  show ?thesis
    unfolding populatedSession_def
    by (simp only: renderResults_rows [OF c n exampleTable_rows] fst_conv)
qed

lemma populatedSession_fields:
  "currentTableData populatedSession = Some \<lparr>columns = [''a'', ''b''], rows = 0\<rparr>"
  "columnFilters populatedSession = [[], []]"
  "globalFilter populatedSession = []"
  "sortState populatedSession = neutralSort"
  "resultsContainer populatedSession = Some (TableSkeleton [''a'', ''b''])"
  by (simp_all add: populatedSession_eq freshSession_def exampleTable_def neutralSort_def
      buildTableSkeleton_def)

lemma populatedSession_rows:
  "arrays populatedSession ! 0 =
     [\<lparr>raw = [JNumber (Finite 2), JString ''y''], display = [''2'', ''y'']\<rparr>,
      \<lparr>raw = [JNumber (Finite 1), JString ''x''], display = [''1'', ''x'']\<rparr>]"
  "0 < length (arrays populatedSession)"
proof -
  let ?s = "buildTableSkeleton (schemaFields exampleTable)
        (freshSession\<lparr>lastArrowResult := Some exampleTable,
           arrays := arrays freshSession @
             [[\<lparr>raw = [JNumber (Finite 2), JString ''y''], display = [''2'', ''y'']\<rparr>,
               \<lparr>raw = [JNumber (Finite 1), JString ''x''], display = [''1'', ''x'']\<rparr>]],
           currentTableData :=
             Some \<lparr>columns = schemaFields exampleTable, rows = length (arrays freshSession)\<rparr>,
           columnFilters := map (\<lambda>_. []) (schemaFields exampleTable),
           globalFilter := [],
           sortState := \<lparr>columnIndex = - 1, direction = None\<rparr>\<rparr>)"
  obtain ext where "arrays (applyTableState exampleHost ?s) = arrays ?s @ ext"
    using applyTableState_arrays by blast
  then have a: "arrays populatedSession =
      [[\<lparr>raw = [JNumber (Finite 2), JString ''y''], display = [''2'', ''y'']\<rparr>,
        \<lparr>raw = [JNumber (Finite 1), JString ''x''], display = [''1'', ''x'']\<rparr>]] @ ext"
    by (simp add: populatedSession_eq freshSession_def)
  show "arrays populatedSession ! 0 =
     [\<lparr>raw = [JNumber (Finite 2), JString ''y''], display = [''2'', ''y'']\<rparr>,
      \<lparr>raw = [JNumber (Finite 1), JString ''x''], display = [''1'', ''x'']\<rparr>]"
    by (simp add: a)
  show "0 < length (arrays populatedSession)" by (simp add: a)
qed

lemma populatedSession_body: "tableBodyElement populatedSession \<noteq> None"
  by (simp add: populatedSession_eq applyTableState_body buildTableSkeleton_def freshSession_def)

lemma visibleRowList_ingested:
  assumes c: "resultsContainer s \<noteq> None"
      and built: "buildRows h (schemaFields t) (tableRows t) = Inr rs"
  shows "visibleRowList h (fst (renderResults h (Some t) s)) = rs"
proof (cases "numRows t = 0")
  case True
  then have "tableRows t = []" by (simp add: numRows_def)
  with built have "rs = []" by simp
  moreover have "visibleRowList h (fst (renderResults h (Some t) s)) = []"
    by (simp add: renderResults_empty [OF c True] visibleRowList_def)
  ultimately show ?thesis by simp
next
  case False
  then have rows: "0 < numRows t" by simp
  let ?s2 = "buildTableSkeleton (schemaFields t)
        (s\<lparr>lastArrowResult := Some t,
           arrays := arrays s @ [rs],
           currentTableData := Some \<lparr>columns = schemaFields t, rows = length (arrays s)\<rparr>,
           columnFilters := map (\<lambda>_. []) (schemaFields t),
           globalFilter := [],
           sortState := \<lparr>columnIndex = - 1, direction = None\<rparr>\<rparr>)"
  have eq: "fst (renderResults h (Some t) s) = applyTableState h ?s2"
    by (simp add: renderResults_rows [OF c rows built])
  have "visibleRowList h (applyTableState h ?s2) = visibleRowList h ?s2"
    by (rule visibleRowList_applyTableState) auto
  also have "visibleRowList h ?s2 = arrays ?s2 ! rows \<lparr>columns = schemaFields t, rows = length (arrays s)\<rparr>"
    using visibleRowList_unfiltered [of ?s2 "\<lparr>columns = schemaFields t, rows = length (arrays s)\<rparr>" h]
    by (simp add: list_all_iff)
  also have "\<dots> = rs" by simp
  finally show ?thesis by (simp add: eq)
qed

text \<open>
  Claim C1. In a grid that holds a snapshot, with an empty global filter, every column
  filter empty and no sort column set, the visible rows are the rows of the snapshot: the
  same rows in the same order, hence as many, and they are what the table body shows. In
  particular the rows built from an ingested result are the visible rows right after the
  ingestion.
\<close>

theorem visible_rows_without_filters:
  "(currentTableData s = Some td \<and> globalFilter s = []
      \<and> list_all (\<lambda>f. f = []) (columnFilters s) \<and> columnIndex (sortState s) = - 1 \<longrightarrow>
        visibleRowList h s = arrays s ! rows td
      \<and> length (visibleRowList h s) = length (arrays s ! rows td)
      \<and> (tableBodyElement s \<noteq> None \<longrightarrow>
            tableBodyElement (applyTableState h s) =
              Some (if arrays s ! rows td = []
                    then EmptyRow (if length (columns td) = 0 then 1 else length (columns td))
                    else BodyRows (map display (arrays s ! rows td)))))
   \<and> (resultsContainer s0 \<noteq> None \<and> buildRows h (schemaFields t) (tableRows t) = Inr rs \<longrightarrow>
        visibleRowList h (fst (renderResults h (Some t) s0)) = rs)"
  using visibleRowList_unfiltered [of s td h] visibleRowList_ingested [of s0 h t rs]
  by blast

theorem visible_rows_without_filters_witness:
  "visibleRowList exampleHost populatedSession =
     [\<lparr>raw = [JNumber (Finite 2), JString ''y''], display = [''2'', ''y'']\<rparr>,
      \<lparr>raw = [JNumber (Finite 1), JString ''x''], display = [''1'', ''x'']\<rparr>]
   \<and> tableBodyElement (applyTableState exampleHost populatedSession) =
       Some (BodyRows [[''2'', ''y''], [''1'', ''x'']])
   \<and> visibleRowList exampleHost (fst (renderResults exampleHost (Some exampleTable) freshSession)) =
     [\<lparr>raw = [JNumber (Finite 2), JString ''y''], display = [''2'', ''y'']\<rparr>,
      \<lparr>raw = [JNumber (Finite 1), JString ''x''], display = [''1'', ''x'']\<rparr>]"
proof -
  let ?td = "\<lparr>columns = [''a'', ''b''], rows = 0\<rparr>"
  let ?rs = "[\<lparr>raw = [JNumber (Finite 2), JString ''y''], display = [''2'', ''y'']\<rparr>,
      \<lparr>raw = [JNumber (Finite 1), JString ''x''], display = [''1'', ''x'']\<rparr>]"
  note t = visible_rows_without_filters
    [of populatedSession ?td exampleHost freshSession exampleTable ?rs]
  have hyp: "currentTableData populatedSession = Some ?td \<and> globalFilter populatedSession = []
      \<and> list_all (\<lambda>f. f = []) (columnFilters populatedSession)
      \<and> columnIndex (sortState populatedSession) = - 1"
    by (simp add: populatedSession_fields neutralSort_def)
  have ingest: "resultsContainer freshSession \<noteq> None
      \<and> buildRows exampleHost (schemaFields exampleTable) (tableRows exampleTable) = Inr ?rs"
    by (simp add: exampleTable_rows) (simp add: freshSession_def)
  from t have "currentTableData populatedSession = Some ?td \<and> globalFilter populatedSession = []
      \<and> list_all (\<lambda>f. f = []) (columnFilters populatedSession)
      \<and> columnIndex (sortState populatedSession) = - 1 \<longrightarrow>
        visibleRowList exampleHost populatedSession = arrays populatedSession ! rows ?td
      \<and> length (visibleRowList exampleHost populatedSession)
          = length (arrays populatedSession ! rows ?td)
      \<and> (tableBodyElement populatedSession \<noteq> None \<longrightarrow>
            tableBodyElement (applyTableState exampleHost populatedSession) =
              Some (if arrays populatedSession ! rows ?td = []
                    then EmptyRow (if length (columns ?td) = 0 then 1 else length (columns ?td))
                    else BodyRows (map display (arrays populatedSession ! rows ?td))))"
    by (rule conjunct1)
  with hyp populatedSession_body
  have a: "visibleRowList exampleHost populatedSession = ?rs
      \<and> tableBodyElement (applyTableState exampleHost populatedSession) =
         Some (BodyRows [[''2'', ''y''], [''1'', ''x'']])"
    by (simp add: populatedSession_rows)
  from t have "resultsContainer freshSession \<noteq> None
      \<and> buildRows exampleHost (schemaFields exampleTable) (tableRows exampleTable) = Inr ?rs \<longrightarrow>
        visibleRowList exampleHost (fst (renderResults exampleHost (Some exampleTable) freshSession))
          = ?rs"
    by (rule conjunct2)
  from this ingest
  have b: "visibleRowList exampleHost (fst (renderResults exampleHost (Some exampleTable) freshSession))
          = ?rs"
    by (rule mp)
  from a b show ?thesis by simp
qed

text \<open>
  Claim C3. From the neutral sort state, a first toggle on a column sets the ascending
  sort on it, a second toggle on the same column the descending sort, and a third one
  brings the neutral state back, and with it the visible rows of the start. A toggle on a
  column other than the current sort column sets the ascending sort on that column.
\<close>

theorem toggleSort_cycle:
  assumes neutral: "sortState s = neutralSort"
      and valid: "\<forall>td. currentTableData s = Some td \<longrightarrow> rows td < length (arrays s)"
  shows "sortState (toggleSort h c s) = \<lparr>columnIndex = c, direction = Some asc\<rparr>
       \<and> sortState (toggleSort h c (toggleSort h c s)) = \<lparr>columnIndex = c, direction = Some desc\<rparr>
       \<and> sortState (toggleSort h c (toggleSort h c (toggleSort h c s))) = neutralSort
       \<and> visibleRowList h (toggleSort h c (toggleSort h c (toggleSort h c s))) = visibleRowList h s
       \<and> (\<forall>s' c'. columnIndex (sortState s') \<noteq> c' \<longrightarrow>
             sortState (toggleSort h c' s') = \<lparr>columnIndex = c', direction = Some asc\<rparr>)"
proof -
  let ?s1 = "toggleSort h c s"
  let ?s2 = "toggleSort h c ?s1"
  let ?s3 = "toggleSort h c ?s2"
  have one: "sortState ?s1 = \<lparr>columnIndex = c, direction = Some asc\<rparr>"
    by (simp add: toggleSort_sortState neutral neutralSort_def)
  have two: "sortState ?s2 = \<lparr>columnIndex = c, direction = Some desc\<rparr>"
    by (simp add: toggleSort_sortState [of h c ?s1] one)
  have three: "sortState ?s3 = neutralSort"
    by (simp add: toggleSort_sortState [of h c ?s2] two neutralSort_def)
  obtain e1 where e1: "arrays ?s1 = arrays s @ e1" using toggleSort_arrays by blast
  obtain e2 where e2: "arrays ?s2 = arrays ?s1 @ e2" using toggleSort_arrays by blast
  obtain e3 where e3: "arrays ?s3 = arrays ?s2 @ e3" using toggleSort_arrays by blast
  have same: "visibleRowList h ?s3 = visibleRowList h s"
  proof (rule visibleRowList_cong)
    show "sortState ?s3 = sortState s" by (simp add: three neutral)
  next
    fix td assume "currentTableData s = Some td"
    with valid have "rows td < length (arrays s)" by simp
    then show "arrays ?s3 ! rows td = arrays s ! rows td"
      by (simp add: e1 e2 e3 nth_append)
  qed simp_all
  have other: "\<forall>s' c'. columnIndex (sortState s') \<noteq> c' \<longrightarrow>
             sortState (toggleSort h c' s') = \<lparr>columnIndex = c', direction = Some asc\<rparr>"
    by (simp add: toggleSort_sortState)
  from one two three same other show ?thesis by blast
qed

theorem toggleSort_cycle_witness:
  "sortState (toggleSort exampleHost 0 populatedSession) = \<lparr>columnIndex = 0, direction = Some asc\<rparr>
   \<and> sortState (toggleSort exampleHost 0 (toggleSort exampleHost 0 populatedSession))
       = \<lparr>columnIndex = 0, direction = Some desc\<rparr>
   \<and> sortState (toggleSort exampleHost 0 (toggleSort exampleHost 0
         (toggleSort exampleHost 0 populatedSession))) = neutralSort
   \<and> visibleRowList exampleHost (toggleSort exampleHost 0 (toggleSort exampleHost 0
         (toggleSort exampleHost 0 populatedSession))) = visibleRowList exampleHost populatedSession
   \<and> sortState (toggleSort exampleHost 1 (toggleSort exampleHost 0 populatedSession))
       = \<lparr>columnIndex = 1, direction = Some asc\<rparr>"
proof -
  have n: "sortState populatedSession = neutralSort"
    by (simp add: populatedSession_fields)
  have v: "\<forall>td. currentTableData populatedSession = Some td \<longrightarrow>
      rows td < length (arrays populatedSession)"
    using populatedSession_rows(2) by (auto simp: populatedSession_fields)
  note t = toggleSort_cycle [OF n v, of exampleHost 0]
  from t have first: "sortState (toggleSort exampleHost 0 populatedSession)
      = \<lparr>columnIndex = 0, direction = Some asc\<rparr>" by (rule conjunct1)
  from t have other: "\<forall>s' c'. columnIndex (sortState s') \<noteq> c' \<longrightarrow>
      sortState (toggleSort exampleHost c' s') = \<lparr>columnIndex = c', direction = Some asc\<rparr>"
    by blast
  have "columnIndex (sortState (toggleSort exampleHost 0 populatedSession)) \<noteq> 1"
    by (simp add: first)
  with other have "sortState (toggleSort exampleHost 1 (toggleSort exampleHost 0 populatedSession))
       = \<lparr>columnIndex = 1, direction = Some asc\<rparr>" by blast
  with t show ?thesis by blast
qed

text \<open>
  Claim C4. No run of filter edits, search edits and sort toggles changes the snapshot:
  the grid still holds the same table data (the same column list and the same reference
  to the rows), every array that was in the store before the run is unchanged after it,
  and so the array of the snapshot's rows, with the raw and display values of every row,
  is. The sort writes to a copy that is allocated after them.
\<close>

theorem derivation_never_mutates_snapshot:
  "currentTableData (gridRun h s acts) = currentTableData s
   \<and> take (length (arrays s)) (arrays (gridRun h s acts)) = arrays s
   \<and> (\<forall>td. currentTableData s = Some td \<and> rows td < length (arrays s) \<longrightarrow>
         arrays (gridRun h s acts) ! rows td = arrays s ! rows td)"
proof -
  obtain ext where "arrays (gridRun h s acts) = arrays s @ ext"
    and "currentTableData (gridRun h s acts) = currentTableData s"
    using gridRun_frame by blast
  then show ?thesis by (simp add: nth_append)
qed

theorem derivation_never_mutates_snapshot_witness:
  "currentTableData (gridRun exampleHost populatedSession
       [SortToggle 0, FilterEdit 1 ''x'', SearchEdit ''1'', SortToggle 0])
     = Some \<lparr>columns = [''a'', ''b''], rows = 0\<rparr>
   \<and> arrays (gridRun exampleHost populatedSession
       [SortToggle 0, FilterEdit 1 ''x'', SearchEdit ''1'', SortToggle 0]) ! 0
     = [\<lparr>raw = [JNumber (Finite 2), JString ''y''], display = [''2'', ''y'']\<rparr>,
        \<lparr>raw = [JNumber (Finite 1), JString ''x''], display = [''1'', ''x'']\<rparr>]"
proof -
  let ?acts = "[SortToggle 0, FilterEdit 1 ''x'', SearchEdit ''1'', SortToggle 0]"
  let ?td = "\<lparr>columns = [''a'', ''b''], rows = 0\<rparr>"
  note t = derivation_never_mutates_snapshot [of exampleHost populatedSession ?acts]
  from t have a: "currentTableData (gridRun exampleHost populatedSession ?acts)
      = currentTableData populatedSession" by (rule conjunct1)
  from t have "\<forall>td. currentTableData populatedSession = Some td
        \<and> rows td < length (arrays populatedSession) \<longrightarrow>
      arrays (gridRun exampleHost populatedSession ?acts) ! rows td
        = arrays populatedSession ! rows td" by blast
  then have "currentTableData populatedSession = Some ?td
        \<and> rows ?td < length (arrays populatedSession) \<longrightarrow>
      arrays (gridRun exampleHost populatedSession ?acts) ! rows ?td
        = arrays populatedSession ! rows ?td" by (rule spec)
  moreover have "currentTableData populatedSession = Some ?td
        \<and> rows ?td < length (arrays populatedSession)"
    using populatedSession_rows(2) by (simp add: populatedSession_fields)
  ultimately have b: "arrays (gridRun exampleHost populatedSession ?acts) ! rows ?td
        = arrays populatedSession ! rows ?td" by (rule mp)
  from a b show ?thesis
    by (simp add: populatedSession_fields populatedSession_rows)
qed

section \<open>Properties of the ingestion, the ledger and the executor\<close>

lemma take_append_take: "take n (xs @ take n ys) = take n (xs @ ys)"
  by (simp add: min_def)

lemma recordQueryHistory_ledger:
  "queryHistory (recordQueryHistory e s) = take 25 (e # queryHistory s)"
  unfolding recordQueryHistory_def by (simp del: take_Cons_numeral)

lemma recordAll_ledger:
  "length (queryHistory s) \<le> 25 \<Longrightarrow>
   queryHistory (recordAll es s) = take 25 (rev es @ queryHistory s)"
  unfolding recordAll_def
proof (induction es arbitrary: s)
  case Nil
  then show ?case by simp
next
  case (Cons e es)
  have "length (queryHistory (recordQueryHistory e s)) \<le> 25"
    by (simp add: recordQueryHistory_def)
  from Cons.IH [OF this]
  have "queryHistory (foldl (\<lambda>s' e. recordQueryHistory e s') (recordQueryHistory e s) es)
      = take 25 (rev es @ take 25 (e # queryHistory s))"
    by (simp only: recordQueryHistory_ledger)
  also have "\<dots> = take 25 (rev es @ e # queryHistory s)"
    by (rule take_append_take)
  finally show ?case by simp
qed

lemma updateExportStatus_fields [simp]:
  "engineLog (updateExportStatus m s) = engineLog s"
  "posted (updateExportStatus m s) = posted s"
  "queryHistory (updateExportStatus m s) = queryHistory s"
  "lastArrowResult (updateExportStatus m s) = lastArrowResult s"
  by (simp_all add: updateExportStatus_def split: option.splits)

lemma runQuery_failed_engine:
  assumes "connection s" and "trim q \<noteq> []"
      and "query eng (engineLog s) (trim q) = Inl err"
  shows "snd (runQuery h eng q s) = Some err"
    and "queryHistory (fst (runQuery h eng q s)) =
      take 25 (\<lparr>entry_id = nextHistoryId s, sql = trim q, timestamp = clock s,
                 durationMs = elapsed eng (engineLog s @ [Query (trim q)]), rowCount = 0,
                 error = Some (message err)\<rparr> # queryHistory s)"
  using assms
  by (simp_all add: runQuery_def Let_def connection_query_def recordQueryHistory_def
      del: take_Cons_numeral)

lemma runQuery_replied:
  assumes "connection s" and "trim q \<noteq> []"
      and "query eng (engineLog s) (trim q) = Inr result"
  shows "queryHistory (fst (runQuery h eng q s)) =
      take 25 (\<lparr>entry_id = nextHistoryId s, sql = trim q, timestamp = clock s,
                 durationMs = elapsed eng (engineLog s @ [Query (trim q)]),
                 rowCount = (case snd (runQuery h eng q s) of
                     Some e \<Rightarrow> 0
                   | None \<Rightarrow> (case result of None \<Rightarrow> 0 | Some t \<Rightarrow> numRows t)),
                 error = map_option message (snd (runQuery h eng q s))\<rparr> # queryHistory s)"
proof -
  let ?s3 = "(updateStatus ''Running query...'' s)
      \<lparr>runButtonDisabled := True, nextHistoryId := nextHistoryId s + 1,
        engineLog := engineLog s @ [Query (trim q)],
        clock := clock s + elapsed eng (engineLog s @ [Query (trim q)])\<rparr>"
  obtain s4 thrown where r: "renderResults h result ?s3 = (s4, thrown)"
    by (cases "renderResults h result ?s3")
  have "queryHistory (fst (renderResults h result ?s3)) = queryHistory ?s3"
    and "clock (fst (renderResults h result ?s3)) = clock ?s3"
    by simp_all
  with r have s4: "queryHistory s4 = queryHistory s"
    "clock s4 = clock s + elapsed eng (engineLog s @ [Query (trim q)])"
    by simp_all
  show ?thesis
  proof (cases thrown)
    case None
    with assms r s4 show ?thesis
      by (simp add: runQuery_def Let_def connection_query_def recordQueryHistory_def
          del: take_Cons_numeral)
  next
    case (Some e)
    with assms r s4 show ?thesis
      by (simp add: runQuery_def Let_def connection_query_def recordQueryHistory_def
          del: take_Cons_numeral)
  qed
qed

lemma updateStatus_resultsContainer [simp]:
  "resultsContainer (updateStatus m s) = resultsContainer s"
  by (simp add: updateStatus_def split: option.splits)

lemma runQuery_succeeds:
  assumes "connection s" and "trim q \<noteq> []"
      and "query eng (engineLog s) (trim q) = Inr (Some t)"
      and "resultsContainer s \<noteq> None" and "0 < numRows t"
      and "buildRows h (schemaFields t) (tableRows t) = Inr rs"
  shows "snd (runQuery h eng q s) = None"
proof -
  let ?s3 = "(updateStatus ''Running query...'' s)
      \<lparr>runButtonDisabled := True, nextHistoryId := nextHistoryId s + 1,
        engineLog := engineLog s @ [Query (trim q)],
        clock := clock s + elapsed eng (engineLog s @ [Query (trim q)])\<rparr>"
  have c: "resultsContainer ?s3 \<noteq> None" using assms(4) by simp
  have "snd (renderResults h (Some t) ?s3) = None"
    by (simp only: renderResults_rows [OF c assms(5) assms(6)] snd_conv)
  then obtain s4 where "renderResults h (Some t) ?s3 = (s4, None)"
    by (cases "renderResults h (Some t) ?s3") simp
  with assms(1-3) show ?thesis
    by (simp add: runQuery_def Let_def connection_query_def)
qed

text \<open>
  Claim C2, as the code has it. With the results container on the page, ingesting a result
  of at least one row whose cells all render moves the grid to the populated state: the
  snapshot holds the columns of the schema and the rows built, the column filters are one
  empty string per column, the global filter is empty and the sort state is neutral. A
  result of no rows does not populate the grid: the snapshot is cleared and the container
  shows the empty-view message.
\<close>

theorem renderResults_ingest:
  assumes "resultsContainer s \<noteq> None"
  shows "(numRows t = 0 \<longrightarrow>
            snd (renderResults h (Some t) s) = None
          \<and> currentTableData (fst (renderResults h (Some t) s)) = None
          \<and> resultsContainer (fst (renderResults h (Some t) s)) = Some EmptyState)
       \<and> (0 < numRows t \<and> buildRows h (schemaFields t) (tableRows t) = Inr rs \<longrightarrow>
            snd (renderResults h (Some t) s) = None
          \<and> currentTableData (fst (renderResults h (Some t) s))
              = Some \<lparr>columns = schemaFields t, rows = length (arrays s)\<rparr>
          \<and> take (Suc (length (arrays s))) (arrays (fst (renderResults h (Some t) s)))
              = arrays s @ [rs]
          \<and> columnFilters (fst (renderResults h (Some t) s))
              = replicate (length (schemaFields t)) []
          \<and> length (columnFilters (fst (renderResults h (Some t) s))) = length (schemaFields t)
          \<and> globalFilter (fst (renderResults h (Some t) s)) = []
          \<and> sortState (fst (renderResults h (Some t) s)) = neutralSort)"
proof -
  have empty: "snd (renderResults h (Some t) s) = None
          \<and> currentTableData (fst (renderResults h (Some t) s)) = None
          \<and> resultsContainer (fst (renderResults h (Some t) s)) = Some EmptyState"
    if "numRows t = 0"
    by (simp add: renderResults_empty [OF assms that])
  have full: "snd (renderResults h (Some t) s) = None
          \<and> currentTableData (fst (renderResults h (Some t) s))
              = Some \<lparr>columns = schemaFields t, rows = length (arrays s)\<rparr>
          \<and> take (Suc (length (arrays s))) (arrays (fst (renderResults h (Some t) s)))
              = arrays s @ [rs]
          \<and> columnFilters (fst (renderResults h (Some t) s))
              = replicate (length (schemaFields t)) []
          \<and> length (columnFilters (fst (renderResults h (Some t) s))) = length (schemaFields t)
          \<and> globalFilter (fst (renderResults h (Some t) s)) = []
          \<and> sortState (fst (renderResults h (Some t) s)) = neutralSort"
    if rows: "0 < numRows t" and built: "buildRows h (schemaFields t) (tableRows t) = Inr rs"
  proof -
    let ?s2 = "buildTableSkeleton (schemaFields t)
        (s\<lparr>lastArrowResult := Some t,
           arrays := arrays s @ [rs],
           currentTableData := Some \<lparr>columns = schemaFields t, rows = length (arrays s)\<rparr>,
           columnFilters := map (\<lambda>_. []) (schemaFields t),
           globalFilter := [],
           sortState := \<lparr>columnIndex = - 1, direction = None\<rparr>\<rparr>)"
    have eq: "renderResults h (Some t) s = (applyTableState h ?s2, None)"
      by (rule renderResults_rows [OF assms rows built])
    obtain ext where "arrays (applyTableState h ?s2) = arrays ?s2 @ ext"
      using applyTableState_arrays by blast
    then have arr: "arrays (applyTableState h ?s2) = (arrays s @ [rs]) @ ext" by simp
    have "take (Suc (length (arrays s))) (arrays (fst (renderResults h (Some t) s)))
        = arrays s @ [rs]"
      by (simp add: eq arr)
    then show ?thesis
      by (simp add: eq neutralSort_def map_replicate_const)
  qed
  from empty full show ?thesis by blast
qed

theorem renderResults_ingest_witness:
  "currentTableData (fst (renderResults exampleHost (Some emptyTable) populatedSession)) = None
   \<and> resultsContainer (fst (renderResults exampleHost (Some emptyTable) populatedSession))
       = Some EmptyState
   \<and> currentTableData (fst (renderResults exampleHost (Some exampleTable) freshSession))
       = Some \<lparr>columns = [''a'', ''b''], rows = 0\<rparr>
   \<and> columnFilters (fst (renderResults exampleHost (Some exampleTable) freshSession)) = [[], []]
   \<and> globalFilter (fst (renderResults exampleHost (Some exampleTable) freshSession)) = []
   \<and> sortState (fst (renderResults exampleHost (Some exampleTable) freshSession)) = neutralSort"
proof -
  have c1: "resultsContainer populatedSession \<noteq> None"
    by (simp add: populatedSession_fields)
  have n1: "numRows emptyTable = 0" by (simp add: numRows_def emptyTable_def)
  from renderResults_ingest [OF c1, of emptyTable exampleHost "[]"]
  have "numRows emptyTable = 0 \<longrightarrow>
            snd (renderResults exampleHost (Some emptyTable) populatedSession) = None
          \<and> currentTableData (fst (renderResults exampleHost (Some emptyTable) populatedSession)) = None
          \<and> resultsContainer (fst (renderResults exampleHost (Some emptyTable) populatedSession))
              = Some EmptyState"
    by (rule conjunct1)
  with n1 have a: "currentTableData (fst (renderResults exampleHost (Some emptyTable) populatedSession)) = None
          \<and> resultsContainer (fst (renderResults exampleHost (Some emptyTable) populatedSession))
              = Some EmptyState"
    by blast
  have c2: "resultsContainer freshSession \<noteq> None" by (simp add: freshSession_def)
  have n2: "0 < numRows exampleTable \<and>
      buildRows exampleHost (schemaFields exampleTable) (tableRows exampleTable) =
        Inr [\<lparr>raw = [JNumber (Finite 2), JString ''y''], display = [''2'', ''y'']\<rparr>,
             \<lparr>raw = [JNumber (Finite 1), JString ''x''], display = [''1'', ''x'']\<rparr>]"
    by (simp add: numRows_def exampleTable_rows) (simp add: exampleTable_def)
  from renderResults_ingest [OF c2, of exampleTable exampleHost
      "[\<lparr>raw = [JNumber (Finite 2), JString ''y''], display = [''2'', ''y'']\<rparr>,
        \<lparr>raw = [JNumber (Finite 1), JString ''x''], display = [''1'', ''x'']\<rparr>]"] n2
  have b: "currentTableData (fst (renderResults exampleHost (Some exampleTable) freshSession))
              = Some \<lparr>columns = schemaFields exampleTable, rows = length (arrays freshSession)\<rparr>
          \<and> columnFilters (fst (renderResults exampleHost (Some exampleTable) freshSession))
              = replicate (length (schemaFields exampleTable)) []
          \<and> globalFilter (fst (renderResults exampleHost (Some exampleTable) freshSession)) = []
          \<and> sortState (fst (renderResults exampleHost (Some exampleTable) freshSession)) = neutralSort"
    by blast
  from a b show ?thesis
    by (simp add: exampleTable_def freshSession_def)
qed

text \<open>
  The claim as written fails on a result of no rows: ingested into a grid that shows the
  example table under a search for \<open>x\<close>, it leaves no snapshot and the search text as it was.
\<close>

theorem renderResults_empty_result_counterexample:
  "currentTableData (fst (renderResults exampleHost (Some emptyTable) searchedSession)) = None
   \<and> globalFilter (fst (renderResults exampleHost (Some emptyTable) searchedSession)) = ''x''
   \<and> numRows emptyTable = 0
   \<and> resultsContainer searchedSession = Some (TableSkeleton [''a'', ''b''])"
proof -
  have c: "resultsContainer searchedSession = Some (TableSkeleton [''a'', ''b''])"
    by (simp add: searchedSession_def setGlobalFilter_def populatedSession_fields)
  then have c': "resultsContainer searchedSession \<noteq> None" by simp
  have n: "numRows emptyTable = 0" by (simp add: numRows_def emptyTable_def)
  have g: "globalFilter searchedSession = ''x''"
    by (simp add: searchedSession_def setGlobalFilter_def)
  show ?thesis by (simp add: renderResults_empty [OF c' n] g c n)
qed

text \<open>
  Claim C5. With a live connection and a query text that is not blank, \<open>runQuery\<close> puts
  exactly one entry at the head of the ledger (which is then cut to its bound), whether
  the run succeeds or fails. The entry carries the trimmed text and the next history id.
  Its error is present exactly when the run failed, that is when \<open>runQuery\<close> rejects; a
  failed run counts no rows, a successful one the rows of the returned result. A query
  that the engine rejects is a failed run.
\<close>

theorem runQuery_records_once:
  assumes "connection s" and "trim q \<noteq> []"
  shows "(\<exists>e. queryHistory (fst (runQuery h eng q s)) = take 25 (e # queryHistory s)
            \<and> sql e = trim q
            \<and> entry_id e = nextHistoryId s
            \<and> (error e \<noteq> None \<longleftrightarrow> snd (runQuery h eng q s) \<noteq> None)
            \<and> (snd (runQuery h eng q s) \<noteq> None \<longrightarrow> rowCount e = 0)
            \<and> (\<forall>result. snd (runQuery h eng q s) = None
                   \<and> query eng (engineLog s) (trim q) = Inr result \<longrightarrow>
                   rowCount e = (case result of None \<Rightarrow> 0 | Some t \<Rightarrow> numRows t)))
       \<and> (\<forall>err. query eng (engineLog s) (trim q) = Inl err \<longrightarrow>
             snd (runQuery h eng q s) = Some err)"
proof (cases "query eng (engineLog s) (trim q)")
  case (Inl err)
  from runQuery_failed_engine [OF assms Inl, of h] Inl show ?thesis
    by (intro conjI exI [of _ "\<lparr>entry_id = nextHistoryId s, sql = trim q, timestamp = clock s,
                 durationMs = elapsed eng (engineLog s @ [Query (trim q)]), rowCount = 0,
                 error = Some (message err)\<rparr>"]) simp_all
next
  case (Inr result)
  from runQuery_replied [OF assms Inr, of h] Inr show ?thesis
    by (intro conjI exI [of _ "\<lparr>entry_id = nextHistoryId s, sql = trim q, timestamp = clock s,
                 durationMs = elapsed eng (engineLog s @ [Query (trim q)]),
                 rowCount = (case snd (runQuery h eng q s) of
                     Some e \<Rightarrow> 0
                   | None \<Rightarrow> (case result of None \<Rightarrow> 0 | Some t \<Rightarrow> numRows t)),
                 error = map_option message (snd (runQuery h eng q s))\<rparr>"])
       (auto split: option.splits)
qed


theorem runQuery_records_once_witness:
  "(\<exists>e. queryHistory (fst (runQuery exampleHost exampleEngine '' select 1 '' freshSession))
            = take 25 (e # queryHistory freshSession)
        \<and> sql e = ''select 1'' \<and> error e = None \<and> rowCount e = 2)
   \<and> (\<exists>e. queryHistory (fst (runQuery exampleHost failingEngine '' select 1 '' freshSession))
            = take 25 (e # queryHistory freshSession)
        \<and> sql e = ''select 1'' \<and> error e \<noteq> None \<and> rowCount e = 0)"
proof -
  have c: "connection freshSession" by (simp add: freshSession_def)
  have q: "trim '' select 1 '' \<noteq> []" "trim '' select 1 '' = ''select 1''"
    by (simp_all add: trim_def is_ws_def)
  have reply: "query exampleEngine (engineLog freshSession) (trim '' select 1 '')
      = Inr (Some exampleTable)"
    by (simp add: exampleEngine_def)
  have ok: "snd (runQuery exampleHost exampleEngine '' select 1 '' freshSession) = None"
    by (rule runQuery_succeeds [OF c q(1) reply _ _ exampleTable_rows])
       (simp_all add: freshSession_def numRows_def exampleTable_def)
  have bad: "query failingEngine (engineLog freshSession) (trim '' select 1 '')
      = Inl (Error ''Parser Error'')"
    by (simp add: failingEngine_def exampleEngine_def)
  from runQuery_records_once [OF c q(1), of exampleHost exampleEngine] ok reply
  have a: "\<exists>e. queryHistory (fst (runQuery exampleHost exampleEngine '' select 1 '' freshSession))
            = take 25 (e # queryHistory freshSession)
        \<and> sql e = ''select 1'' \<and> error e = None \<and> rowCount e = 2"
    by (auto simp: q(2) numRows_def exampleTable_def)
  from runQuery_records_once [OF c q(1), of exampleHost failingEngine] bad
  have b: "\<exists>e. queryHistory (fst (runQuery exampleHost failingEngine '' select 1 '' freshSession))
            = take 25 (e # queryHistory freshSession)
        \<and> sql e = ''select 1'' \<and> error e \<noteq> None \<and> rowCount e = 0"
    by (auto simp: q(2))
  from a b show ?thesis by (rule conjI)
qed

section \<open>Properties of the ledger, the export and the cell rendering\<close>

text \<open>
  Claim C6. Whatever entries are recorded on a ledger within its bound (the empty ledger
  of a fresh page is one), the ledger holds the 25 most recent entries, the most recent
  first: it never holds more than 25, the entry recorded last stands at index 0, and
  after 25 + k entries the k oldest are gone, with every entry the ledger held before.
\<close>

theorem history_ledger_bounded:
  assumes "length (queryHistory s) \<le> 25"
  shows "queryHistory (recordAll es s) = take 25 (rev es @ queryHistory s)
       \<and> length (queryHistory (recordAll es s)) \<le> 25
       \<and> (es \<noteq> [] \<longrightarrow> queryHistory (recordAll es s) ! 0 = last es)
       \<and> (\<forall>k. length es = 25 + k \<longrightarrow> queryHistory (recordAll es s) = rev (drop k es))"
proof -
  have led: "queryHistory (recordAll es s) = take 25 (rev es @ queryHistory s)"
    by (rule recordAll_ledger [OF assms])
  have newest: "es \<noteq> [] \<longrightarrow> take 25 (rev es @ queryHistory s) ! 0 = last es"
    by (cases es rule: rev_cases) simp_all
  have dropped: "\<forall>k. length es = 25 + k \<longrightarrow>
      take 25 (rev es @ queryHistory s) = rev (drop k es)"
    by (simp add: take_rev)
  from newest dropped show ?thesis by (simp add: led)
qed

theorem history_ledger_bounded_witness:
  "length (queryHistory (recordAll
       (map (\<lambda>i. \<lparr>entry_id = i, sql = ''select 1'', timestamp = i, durationMs = 1,
                    rowCount = 0, error = None\<rparr>) [1..<31]) freshSession)) \<le> 25
   \<and> queryHistory (recordAll
       (map (\<lambda>i. \<lparr>entry_id = i, sql = ''select 1'', timestamp = i, durationMs = 1,
                    rowCount = 0, error = None\<rparr>) [1..<31]) freshSession) ! 0
       = \<lparr>entry_id = 30, sql = ''select 1'', timestamp = 30, durationMs = 1,
            rowCount = 0, error = None\<rparr>
   \<and> queryHistory (recordAll
       (map (\<lambda>i. \<lparr>entry_id = i, sql = ''select 1'', timestamp = i, durationMs = 1,
                    rowCount = 0, error = None\<rparr>) [1..<31]) freshSession)
       = rev (map (\<lambda>i. \<lparr>entry_id = i, sql = ''select 1'', timestamp = i, durationMs = 1,
                    rowCount = 0, error = None\<rparr>) [6..<31])"
proof -
  let ?mk = "\<lambda>i. \<lparr>entry_id = i, sql = ''select 1'', timestamp = i, durationMs = 1,
                    rowCount = 0, error = None\<rparr>"
  let ?es = "map ?mk [1..<31]"
  have b: "length (queryHistory freshSession) \<le> 25" by (simp add: freshSession_def)
  note t = history_ledger_bounded [OF b, of ?es]
  have ne: "?es \<noteq> []" by simp
  have len: "length ?es = 25 + 5" by simp
  have last: "last ?es = ?mk 30"
    by (simp add: last_map last_upt)
  have "drop 5 [1..<31] = [6..<31]" by (simp add: drop_upt)
  then have dropped: "drop 5 ?es = map ?mk [6..<31]" by (simp add: drop_map)
  from t have "length (queryHistory (recordAll ?es freshSession)) \<le> 25" by blast
  moreover from t ne have "queryHistory (recordAll ?es freshSession) ! 0 = last ?es" by blast
  moreover from t len have "queryHistory (recordAll ?es freshSession) = rev (drop 5 ?es)"
    by blast
  ultimately show ?thesis by (simp only: last dropped)
qed

text \<open>
  Claim C9. An export request whose query text trims to nothing ends early, for each of
  the three formats: no call reaches the engine, no message is posted to the host, so no
  bytes leave, and no history entry is written. With the engine ready the export status
  line says that a query is to be written first; with the engine not ready the request is
  rejected with the error that DuckDB is not ready for export.
\<close>

theorem exportResult_blank_query:
  assumes "trim (sqlInput s) = []"
  shows "engineLog (fst (exportResult h eng fmt s)) = engineLog s
       \<and> posted (fst (exportResult h eng fmt s)) = posted s
       \<and> queryHistory (fst (exportResult h eng fmt s)) = queryHistory s
       \<and> (connection s \<and> db s \<longrightarrow>
            exportResult h eng fmt s
              = (updateExportStatus ''Write a SQL query to export first.'' s, None))
       \<and> (connection s \<and> db s \<and> exportStatus s \<noteq> None \<longrightarrow>
            exportStatus (fst (exportResult h eng fmt s))
              = Some ''Write a SQL query to export first.'')
       \<and> (\<not> (connection s \<and> db s) \<longrightarrow>
            exportResult h eng fmt s = (s, Some (Error ''DuckDB is not ready for export.'')))"
  using assms
  by (auto simp: exportResult_def Let_def updateExportStatus_def split: option.splits)

theorem exportResult_blank_query_witness:
  "engineLog (fst (exportResult exampleHost exampleEngine arrow (freshSession\<lparr>sqlInput := ''  ''\<rparr>)))
     = []
   \<and> posted (fst (exportResult exampleHost exampleEngine arrow (freshSession\<lparr>sqlInput := ''  ''\<rparr>)))
     = []
   \<and> exportStatus (fst (exportResult exampleHost exampleEngine arrow
        (freshSession\<lparr>sqlInput := ''  ''\<rparr>)))
     = Some ''Write a SQL query to export first.''
   \<and> exportResult exampleHost exampleEngine csv (freshSession\<lparr>sqlInput := ''  '', db := False\<rparr>)
     = (freshSession\<lparr>sqlInput := ''  '', db := False\<rparr>,
        Some (Error ''DuckDB is not ready for export.''))"
proof -
  let ?s = "freshSession\<lparr>sqlInput := ''  ''\<rparr>"
  let ?d = "freshSession\<lparr>sqlInput := ''  '', db := False\<rparr>"
  have blank: "trim (sqlInput ?s) = []" "trim (sqlInput ?d) = []"
    by (simp_all add: trim_def is_ws_def)
  have ready: "connection ?s \<and> db ?s \<and> exportStatus ?s \<noteq> None"
    by (simp add: freshSession_def)
  have unready: "\<not> (connection ?d \<and> db ?d)" by simp
  note t = exportResult_blank_query [OF blank(1), of exampleHost exampleEngine arrow]
  note u = exportResult_blank_query [OF blank(2), of exampleHost exampleEngine csv]
  from t have a: "engineLog (fst (exportResult exampleHost exampleEngine arrow ?s)) = engineLog ?s"
    by blast
  from t have b: "posted (fst (exportResult exampleHost exampleEngine arrow ?s)) = posted ?s"
    by blast
  from t ready have c: "exportStatus (fst (exportResult exampleHost exampleEngine arrow ?s))
      = Some ''Write a SQL query to export first.''"
    by blast
  from u unready have d: "exportResult exampleHost exampleEngine csv ?d
      = (?d, Some (Error ''DuckDB is not ready for export.''))"
    by blast
  from a b c d show ?thesis by (simp add: freshSession_def)
qed

text \<open>
  Claim C10, as the code has it. \<open>formatCell\<close> renders \<open>null\<close>, \<open>undefined\<close> and the
  numbers that are not finite as the empty string, so these cells are alike in the display
  text. They are not the only ones: with a runtime whose renderings of finite numbers,
  bigints, dates and objects are never empty, the values rendered as the empty string are
  exactly those and the empty string itself.
\<close>

theorem formatCell_empty:
  "(nullish_or_nonfinite v \<longrightarrow> formatCell h v = Inr [])
   \<and> (nullish_or_nonfinite v \<and> nullish_or_nonfinite w \<longrightarrow> formatCell h v = formatCell h w)
   \<and> (rendersNonEmpty h \<longrightarrow>
        (formatCell h v = Inr [] \<longleftrightarrow> nullish_or_nonfinite v \<or> v = JString []))"
proof -
  have a: "nullish_or_nonfinite u \<Longrightarrow> formatCell h u = Inr []" for u
    by (auto simp: nullish_or_nonfinite_def)
  have b: "formatCell h v = Inr [] \<longleftrightarrow> nullish_or_nonfinite v \<or> v = JString []"
    if "rendersNonEmpty h"
  proof (cases v)
    case (JNumber n)
    with that show ?thesis
      by (cases n) (simp_all add: nullish_or_nonfinite_def rendersNonEmpty_def)
  next
    case (JDate t)
    with that show ?thesis
      by (cases t) (simp_all add: nullish_or_nonfinite_def rendersNonEmpty_def)
  next
    case (JObject r)
    with that show ?thesis
      by (cases "jsonStringify h r") (auto simp: nullish_or_nonfinite_def rendersNonEmpty_def)
  qed (use that in \<open>auto simp: nullish_or_nonfinite_def rendersNonEmpty_def\<close>)
  from a b show ?thesis by simp
qed

theorem formatCell_empty_witness:
  "formatCell exampleHost (JNumber NaN) = Inr []
   \<and> formatCell exampleHost JNull = formatCell exampleHost (JNumber NegInfinity)
   \<and> formatCell exampleHost (JString ''x'') \<noteq> Inr []
   \<and> formatCell exampleHost (JNumber (Finite 1)) \<noteq> Inr []"
proof -
  have n: "nullish_or_nonfinite (JNumber NaN)" "nullish_or_nonfinite JNull"
    "nullish_or_nonfinite (JNumber NegInfinity)"
    by (simp_all add: nullish_or_nonfinite_def)
  have r: "rendersNonEmpty exampleHost" by (simp add: rendersNonEmpty_def exampleHost_def)
  have m: "\<not> (nullish_or_nonfinite (JString ''x'') \<or> JString ''x'' = JString [])"
    "\<not> (nullish_or_nonfinite (JNumber (Finite 1)) \<or> JNumber (Finite 1) = JString [])"
    by (simp_all add: nullish_or_nonfinite_def)
  from formatCell_empty [of "JNumber NaN" exampleHost JNull] n(1)
  have a: "formatCell exampleHost (JNumber NaN) = Inr []" by blast
  from formatCell_empty [of JNull exampleHost "JNumber NegInfinity"] n(2,3)
  have b: "formatCell exampleHost JNull = formatCell exampleHost (JNumber NegInfinity)" by blast
  from formatCell_empty [of "JString ''x''" exampleHost JNull] r m(1)
  have c: "formatCell exampleHost (JString ''x'') \<noteq> Inr []" by blast
  from formatCell_empty [of "JNumber (Finite 1)" exampleHost JNull] r m(2)
  have d: "formatCell exampleHost (JNumber (Finite 1)) \<noteq> Inr []" by blast
  from a b c d show ?thesis by blast
qed

text \<open>
  The claim as written fails on the empty string: it is neither \<open>null\<close> nor \<open>undefined\<close>
  nor a number, and it is rendered as the empty string.
\<close>

theorem formatCell_empty_string_counterexample:
  "formatCell exampleHost (JString []) = Inr [] \<and> \<not> nullish_or_nonfinite (JString [])"
  by (simp add: nullish_or_nonfinite_def)

end
